theory Spec2Isabelle
  imports Complex_Main
begin

section \<open>Common data\<close>

text \<open>
  The provider component of \<^verbatim>\<open>src/index.tsx\<close> keeps its state in React state cells and
  refs. Each asynchronous function is embedded as the sequence of its synchronous segments:
  one function for the code up to the first \<^verbatim>\<open>await\<close>, and one continuation per
  \<^verbatim>\<open>await\<close>, each taking the state and the value the awaited promise settled with.
\<close>

datatype ModelStatus = Idle | Loading | Ready | Error

datatype jserror = JsError string

text \<open>The value a promise settled with; a pending promise is \<open>None\<close> of \<open>'a settle option\<close>.\<close>

datatype 'a settle = Fulfilled 'a | Rejected jserror

section \<open>JavaScript numbers\<close>

text \<open>
  A JavaScript number is a double. The counters, times and the capped power of two in
  this program are integers far below \<open>2^53\<close> and are computed exactly; the jitter
  \<^verbatim>\<open>Math.random() * 1000\<close> and the delay it is added to are not, so the two
  operations that round are written out with \<open>fl\<close>.
\<close>

text \<open>How often a number can be halved before it drops below 2: for \<open>x \<ge> 1\<close> the
  exponent \<open>e\<close> with \<open>2^e \<le> x < 2^(e+1)\<close>.\<close>

function halvings :: "real \<Rightarrow> nat" where
  "halvings x = (if 2 \<le> x then Suc (halvings (x / 2)) else 0)"
  by pat_completeness auto
termination
proof (relation "measure (\<lambda>x. nat \<lfloor>x\<rfloor>)")
  show "wf (measure (\<lambda>x::real. nat \<lfloor>x\<rfloor>))" by simp
next
  fix x :: real assume x: "2 \<le> x"
  have "x / 2 \<le> x - 1" using x by simp
  then have "\<lfloor>x / 2\<rfloor> \<le> \<lfloor>x - 1\<rfloor>" by (rule floor_mono)
  also have "\<dots> = \<lfloor>x\<rfloor> - 1" by simp
  finally have "\<lfloor>x / 2\<rfloor> < \<lfloor>x\<rfloor>" by simp
  moreover have "0 < \<lfloor>x\<rfloor>" using x by simp
  ultimately show "(x / 2, x) \<in> measure (\<lambda>x. nat \<lfloor>x\<rfloor>)" by simp
qed

text \<open>How often a positive number below 1 must be doubled to reach 1.\<close>

function doublings :: "real \<Rightarrow> nat" where
  "doublings x = (if 0 < x \<and> x < 1 then Suc (doublings (2 * x)) else 0)"
  by pat_completeness auto
termination
proof (relation "measure (\<lambda>x. nat \<lfloor>1 / x\<rfloor>)")
  show "wf (measure (\<lambda>x::real. nat \<lfloor>1 / x\<rfloor>))" by simp
next
  fix x :: real assume x: "0 < x \<and> x < 1"
  let ?y = "1 / x"
  have y: "1 < ?y" using x by simp
  have "\<lfloor>?y / 2\<rfloor> < \<lfloor>?y\<rfloor>"
  proof (cases "2 \<le> ?y")
    case True
    then have "?y / 2 \<le> ?y - 1" by simp
    then have "\<lfloor>?y / 2\<rfloor> \<le> \<lfloor>?y - 1\<rfloor>" by (rule floor_mono)
    then show ?thesis by simp
  next
    case False
    then have "?y / 2 < 1" by simp
    then have "\<lfloor>?y / 2\<rfloor> < 1" by (simp add: floor_less_iff)
    moreover have "1 \<le> \<lfloor>?y\<rfloor>" using y by (simp add: le_floor_iff)
    ultimately show ?thesis by linarith
  qed
  moreover have "0 < \<lfloor>?y\<rfloor>" using y by (simp add: floor_less_iff le_floor_iff)
  moreover have "1 / (2 * x) = ?y / 2" by simp
  ultimately have "nat \<lfloor>1 / (2 * x)\<rfloor> < nat \<lfloor>1 / x\<rfloor>" by (simp only: zless_nat_conj)
  then show "(2 * x, x) \<in> measure (\<lambda>x. nat \<lfloor>1 / x\<rfloor>)" by (simp only: in_measure)
qed

text \<open>The binary exponent of a positive number.\<close>

definition binade :: "real \<Rightarrow> int" where
  "binade x = (if 1 \<le> x then int (halvings x) else - int (doublings x))"

definition pow2 :: "int \<Rightarrow> real" where
  "pow2 e = (if 0 \<le> e then 2 ^ nat e else 1 / 2 ^ nat (- e))"

text \<open>Rounding to the nearest integer, a tie going to the even one.\<close>

definition round_half_even :: "real \<Rightarrow> int" where
  "round_half_even y =
     (let f = \<lfloor>y\<rfloor>; d = y - of_int f in
      if d < 1 / 2 then f else if 1 / 2 < d then f + 1 else if even f then f else f + 1)"

text \<open>
  The double nearest to a real number: 53 significant bits, ties to even. Subnormal
  numbers and overflow are left out: what is rounded here is \<^verbatim>\<open>Math.random() * 1000\<close>
  and a sum between 1000 and 61000.
\<close>

definition fl :: "real \<Rightarrow> real" where
  "fl x =
     (if x = 0 then 0
      else
        (let a = \<bar>x\<bar>; q = pow2 (binade a - 52) in
         sgn x * (of_int (round_half_even (a / q)) * q)))"

declare halvings.simps [simp del] doublings.simps [simp del]

section \<open>Chat completion requests\<close>

record ChatMessage =
  role :: string
  msg_content :: string

text \<open>Property values of the caller's \<^verbatim>\<open>options: Record<string, any>\<close>.\<close>

datatype jsval =
    JUndefined
  | JNull
  | JBool bool
  | JNum int
  | JStr string
  | JMessages "ChatMessage list"

type_synonym jsobject = "string \<rightharpoonup> jsval"

text \<open>
  An object literal \<^verbatim>\<open>{ a, b: v, ...o }\<close>: the fixed fields first, then every own property
  of \<open>o\<close>, a later property replacing an earlier one of the same name.
\<close>

definition chatCompletion_request :: "ChatMessage list \<Rightarrow> jsobject \<Rightarrow> jsobject" where
  "chatCompletion_request messages options =
     [''messages'' \<mapsto> JMessages messages] ++ options"

definition streamChatCompletion_request :: "ChatMessage list \<Rightarrow> jsobject \<Rightarrow> jsobject" where
  "streamChatCompletion_request messages options =
     [''messages'' \<mapsto> JMessages messages, ''stream'' \<mapsto> JBool True] ++ options"

text \<open>Streamed chunks \<^verbatim>\<open>{choices: [{delta: {content}}]}\<close>; every level below
  \<^verbatim>\<open>choices\<close> may be missing.\<close>

datatype delta = Delta (content: "string option")

datatype choice = Choice (delta: "delta option")

datatype chunk = Chunk (choices: "choice list")

text \<open>What \<^verbatim>\<open>engine.chat.completions.create\<close> resolves to: a structured result, or a
  finite sequence of chunks.\<close>

datatype completion = Completion string | Stream "chunk list"

text \<open>
  An engine of the LLM runtime: its identity, what its \<^verbatim>\<open>chat.completions.create\<close>
  settles with for a request, and what its \<^verbatim>\<open>unload()\<close> settles with.
\<close>

record engine =
  eid :: nat
  create :: "jsobject \<Rightarrow> completion settle"
  unload :: "unit settle"

text \<open>\<^verbatim>\<open>chunk.choices[0]?.delta?.content || ""\<close>\<close>

definition chunk_content :: "chunk \<Rightarrow> string" where
  "chunk_content c =
     (case choices c of
        [] \<Rightarrow> ''''
      | ch # _ \<Rightarrow>
          (case delta ch of
             None \<Rightarrow> ''''
           | Some d \<Rightarrow> (case content d of None \<Rightarrow> '''' | Some s \<Rightarrow> s)))"

text \<open>
  The loop \<^verbatim>\<open>for await (const chunk of chunks)\<close>; \<open>calls\<close> is the list of arguments
  \<^verbatim>\<open>onChunk\<close> has been invoked with so far, oldest first. The caller's \<^verbatim>\<open>onChunk\<close> is
  taken to return normally.
\<close>

fun for_await_chunks :: "chunk list \<Rightarrow> string list \<Rightarrow> string list" where
  "for_await_chunks [] calls = calls"
| "for_await_chunks (c # cs) calls =
     (let content = chunk_content c in
      if content \<noteq> '''' then for_await_chunks cs (calls @ [content])
      else for_await_chunks cs calls)"

text \<open>
  \<^verbatim>\<open>chatCompletion(messages, options)\<close>, given the engine ref and the state of the WebLLM
  ready promise. \<open>None\<close> is a call that stays suspended at the \<^verbatim>\<open>await\<close> of a promise
  that never settles.
\<close>

definition chatCompletion ::
  "engine option \<Rightarrow> unit settle option \<Rightarrow> ChatMessage list \<Rightarrow> jsobject \<Rightarrow> completion settle option"
where
  "chatCompletion webLLMEngineRef webLLMReadyPromise messages options =
     (case webLLMEngineRef of
        None \<Rightarrow>
          Some (Rejected (JsError ''WebLLM engine not initialized. Call loadWebLLMModel first.''))
      | Some e \<Rightarrow>
          (case webLLMReadyPromise of
             None \<Rightarrow> None
           | Some (Rejected err) \<Rightarrow> Some (Rejected err)
           | Some (Fulfilled _) \<Rightarrow> Some (create e (chatCompletion_request messages options))))"

text \<open>
  \<^verbatim>\<open>streamChatCompletion(messages, onChunk, options)\<close>: the arguments \<^verbatim>\<open>onChunk\<close> was
  invoked with, in order, and what the returned promise settles with. Iterating a result
  that is not a sequence of chunks throws a \<^verbatim>\<open>TypeError\<close>.
\<close>

definition streamChatCompletion ::
  "engine option \<Rightarrow> unit settle option \<Rightarrow> ChatMessage list \<Rightarrow> jsobject
     \<Rightarrow> string list \<times> unit settle option"
where
  "streamChatCompletion webLLMEngineRef webLLMReadyPromise messages options =
     (case webLLMEngineRef of
        None \<Rightarrow>
          ([], Some (Rejected (JsError ''WebLLM engine not initialized. Call loadWebLLMModel first.'')))
      | Some e \<Rightarrow>
          (case webLLMReadyPromise of
             None \<Rightarrow> ([], None)
           | Some (Rejected err) \<Rightarrow> ([], Some (Rejected err))
           | Some (Fulfilled _) \<Rightarrow>
               (case create e (streamChatCompletion_request messages options) of
                  Rejected err \<Rightarrow> ([], Some (Rejected err))
                | Fulfilled (Completion _) \<Rightarrow>
                    ([], Some (Rejected (JsError ''TypeError: chunks is not async iterable'')))
                | Fulfilled (Stream chunks) \<Rightarrow>
                    (for_await_chunks chunks [], Some (Fulfilled ())))))"

section \<open>The WebLLM runtime namespace and the engine session\<close>

record WebLLMModelRecord =
  model :: string
  model_id :: string
  vram_required_MB :: "int option"

text \<open>\<^verbatim>\<open>{ progress, text }\<close> as passed to \<^verbatim>\<open>initProgressCallback\<close>.\<close>

datatype InitProgress = InitProgress (progress: real) (progress_text: string)

text \<open>
  \<^verbatim>\<open>window.webllm\<close>, each property optional. \<^verbatim>\<open>CreateMLCEngine(modelId, ...)\<close> reports
  progress zero or more times and settles with an engine or an error; reading
  \<^verbatim>\<open>prebuiltAppConfig.model_list\<close> yields the list or throws; the cache probe settles with
  a boolean or an error.
\<close>

record prebuiltAppConfig_obj =
  model_list :: "jserror + WebLLMModelRecord list"

record webllm_ns =
  CreateMLCEngine :: "(string \<Rightarrow> InitProgress list \<times> engine settle) option"
  prebuiltAppConfig :: "prebuiltAppConfig_obj option"
  webllm_hasModelInCache :: "(string \<Rightarrow> bool settle) option"

text \<open>\<^verbatim>\<open>getAvailableWebLLMModels()\<close>: what the returned promise settles with.\<close>

definition getAvailableWebLLMModels ::
  "bool \<Rightarrow> webllm_ns option \<Rightarrow> WebLLMModelRecord list settle"
where
  "getAvailableWebLLMModels enableWebLLM webllm =
     (if \<not> enableWebLLM then Rejected (JsError ''WebLLM is not enabled'')
      else
        (case (case webllm of None \<Rightarrow> None | Some ns \<Rightarrow> prebuiltAppConfig ns) of
           None \<Rightarrow> Rejected (JsError ''WebLLM library not loaded yet'')
         | Some cfg \<Rightarrow>
             (case model_list cfg of
                Inr ms \<Rightarrow> Fulfilled ms
              | Inl err \<Rightarrow> Fulfilled [])))"

text \<open>\<^verbatim>\<open>hasModelInCache(modelId)\<close>: what the returned promise settles with.\<close>

definition hasModelInCache :: "bool \<Rightarrow> webllm_ns option \<Rightarrow> string \<Rightarrow> bool settle" where
  "hasModelInCache enableWebLLM webllm modelId =
     (if \<not> enableWebLLM then Fulfilled False
      else
        (case (case webllm of None \<Rightarrow> None | Some ns \<Rightarrow> webllm_hasModelInCache ns) of
           None \<Rightarrow> Fulfilled False
         | Some checkCache \<Rightarrow>
             (case checkCache modelId of
                Fulfilled b \<Rightarrow> Fulfilled b
              | Rejected err \<Rightarrow> Fulfilled False)))"

text \<open>
  What the runtime was asked to do and what it answered, oldest first. It is not part of
  the provider's state: it records the order of the calls the provider makes.
\<close>

datatype rt_event =
    UnloadCalled nat
  | UnloadSettled nat "unit settle"
  | CreateCalled string
  | CreateSettled string "nat settle"

text \<open>A callback handed to \<^verbatim>\<open>setTimeout\<close> by the WebLLM load state machine:
  \<^verbatim>\<open>tryLoadWebLLM\<close> of a render that saw the given \<^verbatim>\<open>webLLMStatus\<close>.\<close>

datatype wl_callback = WlRetry ModelStatus

text \<open>A pending timeout: its id, when it was set, the delay asked for, and the callback.\<close>

record 'cb timer =
  tid :: nat
  set_at :: int
  delay :: real
  callback :: 'cb

text \<open>
  The WebLLM state cells and refs of the provider. \<open>live_sessions\<close> and \<open>rt_events\<close>
  belong to the runtime: the ids of the engines created and not yet unloaded, and the log
  of calls. \<open>wl_timers\<close> are the pending timeouts, \<open>wl_next_tid\<close> the next timer id.
\<close>

record wstate =
  webLLMEngineRef :: "engine option"
  isWebLLMLoaded :: bool
  webLLMStatus :: ModelStatus
  webLLMError :: "jserror option"
  webLLMInitProgress :: "InitProgress option"
  currentWebLLMModel :: "string option"
  onWebLLMInitProgress_calls :: "InitProgress list"
  webLLMPollTimerRef :: "nat option"
  isWebLLMPollingRef :: bool
  webLLMAttemptRef :: nat
  webLLMReadyPromise :: "unit settle option"
  wl_timers :: "wl_callback timer list"
  wl_next_tid :: nat
  live_sessions :: "nat list"
  rt_events :: "rt_event list"

text \<open>Where a call of \<^verbatim>\<open>loadWebLLMModel(modelId)\<close> stands: suspended at one of its two
  \<^verbatim>\<open>await\<close>s, or returned.\<close>

datatype lw_call =
    LwAwaitUnload string "string \<Rightarrow> InitProgress list \<times> engine settle" engine
  | LwAwaitCreate string
  | LwReturned "unit settle"

text \<open>The \<^verbatim>\<open>catch\<close> block of \<^verbatim>\<open>loadWebLLMModel\<close>.\<close>

definition loadWebLLMModel_catch :: "jserror \<Rightarrow> wstate \<Rightarrow> lw_call \<times> wstate" where
  "loadWebLLMModel_catch err s =
     (LwReturned (Rejected err), s\<lparr>webLLMError := Some err, webLLMStatus := Error\<rparr>)"

text \<open>The call \<^verbatim>\<open>CreateMLCEngine(modelId, { initProgressCallback })\<close>, up to its
  \<^verbatim>\<open>await\<close>.\<close>

definition loadWebLLMModel_create :: "string \<Rightarrow> wstate \<Rightarrow> lw_call \<times> wstate" where
  "loadWebLLMModel_create modelId s =
     (LwAwaitCreate modelId, s\<lparr>rt_events := rt_events s @ [CreateCalled modelId]\<rparr>)"

text \<open>\<^verbatim>\<open>loadWebLLMModel(modelId)\<close> from its entry to its first \<^verbatim>\<open>await\<close>.\<close>

definition loadWebLLMModel :: "bool \<Rightarrow> webllm_ns option \<Rightarrow> string \<Rightarrow> wstate \<Rightarrow> lw_call \<times> wstate" where
  "loadWebLLMModel enableWebLLM webllm modelId s =
     (if \<not> enableWebLLM then
        (LwReturned (Rejected (JsError
           ''WebLLM is not enabled. Set enableWebLLM={true} in TransformersProvider'')), s)
      else
        (case (case webllm of None \<Rightarrow> None | Some ns \<Rightarrow> CreateMLCEngine ns) of
           None \<Rightarrow> (LwReturned (Rejected (JsError ''WebLLM library not loaded yet'')), s)
         | Some factory \<Rightarrow>
             (let s1 = s\<lparr>webLLMStatus := Loading, webLLMError := None\<rparr> in
              case webLLMEngineRef s1 of
                Some e \<Rightarrow>
                  (LwAwaitUnload modelId factory e,
                   s1\<lparr>rt_events := rt_events s1 @ [UnloadCalled (eid e)]\<rparr>)
              | None \<Rightarrow> loadWebLLMModel_create modelId s1)))"

text \<open>The continuation of \<^verbatim>\<open>await webLLMEngineRef.current.unload()\<close>.\<close>

definition loadWebLLMModel_after_unload ::
  "string \<Rightarrow> unit settle \<Rightarrow> wstate \<Rightarrow> lw_call \<times> wstate"
where
  "loadWebLLMModel_after_unload modelId r s =
     (case r of
        Fulfilled _ \<Rightarrow> loadWebLLMModel_create modelId (s\<lparr>webLLMEngineRef := None\<rparr>)
      | Rejected err \<Rightarrow> loadWebLLMModel_catch err s)"

text \<open>One invocation of \<^verbatim>\<open>initProgressCallback\<close>.\<close>

definition initProgressCallback :: "InitProgress \<Rightarrow> wstate \<Rightarrow> wstate" where
  "initProgressCallback p s =
     s\<lparr>webLLMInitProgress := Some p,
       onWebLLMInitProgress_calls := onWebLLMInitProgress_calls s @ [p]\<rparr>"

text \<open>The progress reports of one engine creation, in order.\<close>

definition report_progress :: "InitProgress list \<Rightarrow> wstate \<Rightarrow> wstate" where
  "report_progress ps s = foldl (\<lambda>t p. initProgressCallback p t) s ps"

text \<open>The continuation of \<^verbatim>\<open>await CreateMLCEngine(...)\<close>.\<close>

definition loadWebLLMModel_after_create ::
  "string \<Rightarrow> engine settle \<Rightarrow> wstate \<Rightarrow> lw_call \<times> wstate"
where
  "loadWebLLMModel_after_create modelId r s =
     (case r of
        Fulfilled engine \<Rightarrow>
          (LwReturned (Fulfilled ()),
           s\<lparr>webLLMEngineRef := Some engine, isWebLLMLoaded := True,
             webLLMStatus := Ready, currentWebLLMModel := Some modelId\<rparr>)
      | Rejected err \<Rightarrow> loadWebLLMModel_catch err s)"

text \<open>
  The runtime's side of the two awaited calls: \<^verbatim>\<open>unload()\<close> of an engine settles, and a
  fulfilled unload ends that session; \<^verbatim>\<open>CreateMLCEngine\<close> reports its progress and
  settles, and a fulfilled creation starts a session.
\<close>

definition runtime_unload :: "engine \<Rightarrow> wstate \<Rightarrow> wstate" where
  "runtime_unload e s =
     s\<lparr>live_sessions :=
         (case unload e of
            Fulfilled _ \<Rightarrow> removeAll (eid e) (live_sessions s)
          | Rejected _ \<Rightarrow> live_sessions s),
       rt_events := rt_events s @ [UnloadSettled (eid e) (unload e)]\<rparr>"

definition runtime_create ::
  "string \<Rightarrow> InitProgress list \<times> engine settle \<Rightarrow> wstate \<Rightarrow> wstate"
where
  "runtime_create modelId out s =
     (let s1 = report_progress (fst out) s in
      case snd out of
        Fulfilled engine \<Rightarrow>
          s1\<lparr>live_sessions := live_sessions s1 @ [eid engine],
             rt_events := rt_events s1 @ [CreateSettled modelId (Fulfilled (eid engine))]\<rparr>
      | Rejected err \<Rightarrow>
          s1\<lparr>rt_events := rt_events s1 @ [CreateSettled modelId (Rejected err)]\<rparr>)"

text \<open>
  One call of \<^verbatim>\<open>loadWebLLMModel(modelId)\<close> run to its end with no other call in between:
  the states at the successive suspension points (the observable instants), oldest first,
  ending with the state at return, and what the returned promise settles with.
\<close>

definition loadWebLLMModel_finish ::
  "string \<Rightarrow> (string \<Rightarrow> InitProgress list \<times> engine settle) \<Rightarrow> wstate
     \<Rightarrow> wstate list \<times> unit settle"
where
  "loadWebLLMModel_finish modelId factory s =
     (let out = factory modelId;
          s1 = runtime_create modelId out s;
          (c, s2) = loadWebLLMModel_after_create modelId (snd out) s1
      in ([s, s1, s2], case c of LwReturned r \<Rightarrow> r | _ \<Rightarrow> Fulfilled ()))"

definition loadWebLLMModel_run ::
  "bool \<Rightarrow> webllm_ns option \<Rightarrow> string \<Rightarrow> wstate \<Rightarrow> wstate list \<times> unit settle"
where
  "loadWebLLMModel_run enableWebLLM webllm modelId s =
     (case loadWebLLMModel enableWebLLM webllm modelId s of
        (LwReturned r, s1) \<Rightarrow> ([s1], r)
      | (LwAwaitCreate m, s1) \<Rightarrow>
          (case (case webllm of None \<Rightarrow> None | Some ns \<Rightarrow> CreateMLCEngine ns) of
             None \<Rightarrow> ([s1], Rejected (JsError ''WebLLM library not loaded yet''))
           | Some factory \<Rightarrow> loadWebLLMModel_finish m factory s1)
      | (LwAwaitUnload m factory e, s1) \<Rightarrow>
          (let s2 = runtime_unload e s1 in
           case loadWebLLMModel_after_unload m (unload e) s2 of
             (LwAwaitCreate m', s3) \<Rightarrow>
               (let (ss, r) = loadWebLLMModel_finish m' factory s3 in (s1 # s2 # ss, r))
           | (LwReturned r, s3) \<Rightarrow> ([s1, s2, s3], r)
           | (_, s3) \<Rightarrow> ([s1, s2, s3], Fulfilled ())))"

text \<open>The WebLLM load state machine's failure handler.\<close>

definition clearWebLLMPolling :: "wstate \<Rightarrow> wstate" where
  "clearWebLLMPolling s =
     (case webLLMPollTimerRef s of
        Some t \<Rightarrow>
          s\<lparr>wl_timers := filter (\<lambda>x. tid x \<noteq> t) (wl_timers s),
            webLLMPollTimerRef := None, isWebLLMPollingRef := False\<rparr>
      | None \<Rightarrow> s\<lparr>isWebLLMPollingRef := False\<rparr>)"

text \<open>
  \<^verbatim>\<open>handleWebLLMFailure(err)\<close> of a render that saw \<open>cap_status\<close>, at time \<open>now\<close>;
  \<open>rnd\<close> is the value \<^verbatim>\<open>Math.random()\<close> returns.
\<close>

definition handleWebLLMFailure ::
  "int \<Rightarrow> ModelStatus \<Rightarrow> int \<Rightarrow> real \<Rightarrow> jserror \<Rightarrow> wstate \<Rightarrow> wstate"
where
  "handleWebLLMFailure maxRetries cap_status now rnd err s0 =
     (let s1 = clearWebLLMPolling s0;
          s = s1\<lparr>webLLMAttemptRef := webLLMAttemptRef s1 + 1\<rparr>
      in
      if int (webLLMAttemptRef s) < maxRetries then
        (let d = fl (real (min (1000 * 2 ^ (webLLMAttemptRef s - 1)) 60000) + fl (rnd * 1000)) in
         s\<lparr>wl_timers := wl_timers s @
              [\<lparr>tid = wl_next_tid s, set_at = now, delay = d, callback = WlRetry cap_status\<rparr>],
           wl_next_tid := wl_next_tid s + 1\<rparr>)
      else
        s\<lparr>webLLMError := Some err, webLLMStatus := Error,
          webLLMReadyPromise :=
            (case webLLMReadyPromise s of None \<Rightarrow> Some (Rejected err) | Some r \<Rightarrow> Some r)\<rparr>)"





section \<open>The library load state machine\<close>

text \<open>
  The provider's props, taken as fixed over the lifetime of a mount: \<^verbatim>\<open>isBrowser\<close>,
  \<^verbatim>\<open>loadTimeout\<close> and \<^verbatim>\<open>maxRetries\<close> in milliseconds and attempts, and whether an
  \<^verbatim>\<open>onLibraryError\<close> callback was supplied.
\<close>

record props =
  isBrowser :: bool
  loadTimeout :: int
  maxRetries :: int
  has_onLibraryError :: bool

text \<open>
  The functions of the component body are closures: each render creates them anew, and
  \<^verbatim>\<open>tryLoadLibrary\<close> reads the \<^verbatim>\<open>isLibraryLoaded\<close> and \<^verbatim>\<open>libraryStatus\<close> of the render
  that created it, not the current state. A \<open>render\<close> holds these two captured values;
  \<^verbatim>\<open>handleLibraryFailure\<close>, \<^verbatim>\<open>tick\<close> and the script's \<^verbatim>\<open>onerror\<close> handler of a render
  refer to the \<^verbatim>\<open>tryLoadLibrary\<close> of the same render.
\<close>

record render =
  cap_isLibraryLoaded :: bool
  cap_libraryStatus :: ModelStatus

text \<open>A callback handed to \<^verbatim>\<open>setTimeout\<close>: the \<^verbatim>\<open>tick\<close> of a poll loop with its
  deadline, or \<^verbatim>\<open>tryLoadLibrary\<close>.\<close>

datatype lib_callback = LibTick render int | LibRetry render

text \<open>An injected script element and the render its \<^verbatim>\<open>onerror\<close> handler belongs to.\<close>

record script =
  sid :: nat
  onerror_render :: render

text \<open>
  The state cells and refs of the library load state machine, and its surroundings:
  the script elements in \<^verbatim>\<open>document.head\<close>, the number of script elements created so
  far, the pending timeouts, the calls of \<^verbatim>\<open>onLibraryError\<close>, and whether
  \<^verbatim>\<open>window.transformers?.pipeline\<close> is there.
\<close>

record lstate =
  isLibraryLoaded :: bool
  libraryStatus :: ModelStatus
  libraryError :: "jserror option"
  scriptRef :: "script option"
  pollTimerRef :: "nat option"
  isPollingRef :: bool
  libraryAttemptRef :: nat
  readyPromise :: "unit settle option"
  head_scripts :: "script list"
  scripts_created :: nat
  lib_timers :: "lib_callback timer list"
  lib_next_tid :: nat
  onLibraryError_calls :: "jserror list"
  pipeline_present :: bool

definition clearPolling :: "lstate \<Rightarrow> lstate" where
  "clearPolling s =
     (case pollTimerRef s of
        Some t \<Rightarrow>
          s\<lparr>lib_timers := filter (\<lambda>x. tid x \<noteq> t) (lib_timers s),
            pollTimerRef := None, isPollingRef := False\<rparr>
      | None \<Rightarrow> s\<lparr>isPollingRef := False\<rparr>)"

definition removeScriptTag :: "lstate \<Rightarrow> lstate" where
  "removeScriptTag s =
     (case scriptRef s of
        Some sc \<Rightarrow>
          s\<lparr>head_scripts := filter (\<lambda>x. sid x \<noteq> sid sc) (head_scripts s),
            scriptRef := None\<rparr>
      | None \<Rightarrow> s\<lparr>scriptRef := None\<rparr>)"

text \<open>Settling a one-shot promise: a promise already settled keeps its value.\<close>

definition settle_once :: "'a settle \<Rightarrow> 'a settle option \<Rightarrow> 'a settle option" where
  "settle_once r p = (case p of None \<Rightarrow> Some r | Some x \<Rightarrow> Some x)"

text \<open>
  \<^verbatim>\<open>handleLibraryFailure(err)\<close> of render \<open>r\<close> at time \<open>now\<close>; \<open>rnd\<close> is the value
  \<^verbatim>\<open>Math.random()\<close> returns.
\<close>

definition handleLibraryFailure ::
  "props \<Rightarrow> render \<Rightarrow> int \<Rightarrow> real \<Rightarrow> jserror \<Rightarrow> lstate \<Rightarrow> lstate"
where
  "handleLibraryFailure P r now rnd err s0 =
     (let s1 = clearPolling s0;
          s = s1\<lparr>libraryAttemptRef := libraryAttemptRef s1 + 1\<rparr>
      in
      if int (libraryAttemptRef s) < maxRetries P then
        (let d = fl (real (min (1000 * 2 ^ (libraryAttemptRef s - 1)) 60000) + fl (rnd * 1000)) in
         s\<lparr>lib_timers := lib_timers s @
              [\<lparr>tid = lib_next_tid s, set_at = now, delay = d, callback = LibRetry r\<rparr>],
           lib_next_tid := lib_next_tid s + 1\<rparr>)
      else
        s\<lparr>libraryError := Some err, libraryStatus := Error,
          readyPromise := settle_once (Rejected err) (readyPromise s),
          onLibraryError_calls :=
            onLibraryError_calls s @ (if has_onLibraryError P then [err] else [])\<rparr>)"

text \<open>Decimal digits of a number, for the timeout message.\<close>

fun digits :: "nat \<Rightarrow> string" where
  "digits n =
     (if n < 10 then [char_of (48 + n)] else digits (n div 10) @ [char_of (48 + n mod 10)])"

definition show_int :: "int \<Rightarrow> string" where
  "show_int i = (if i < 0 then ''-'' @ digits (nat (- i)) else digits (nat i))"

text \<open>One run of the poll loop's \<^verbatim>\<open>tick\<close>, created by \<^verbatim>\<open>ensurePolling(deadline)\<close> of
  render \<open>r\<close>.\<close>

definition tick :: "props \<Rightarrow> render \<Rightarrow> int \<Rightarrow> int \<Rightarrow> real \<Rightarrow> lstate \<Rightarrow> lstate" where
  "tick P r deadline now rnd s =
     (if pipeline_present s then
        (let s1 = removeScriptTag (clearPolling s) in
         s1\<lparr>isLibraryLoaded := True, libraryStatus := Ready,
            readyPromise := settle_once (Fulfilled ()) (readyPromise s1)\<rparr>)
      else if now \<ge> deadline then
        handleLibraryFailure P r now rnd
          (JsError (''transformers.js not ready within '' @ show_int (loadTimeout P) @ '' ms''))
          (removeScriptTag (clearPolling s))
      else
        s\<lparr>lib_timers := lib_timers s @
             [\<lparr>tid = lib_next_tid s, set_at = now, delay = 500, callback = LibTick r deadline\<rparr>],
          pollTimerRef := Some (lib_next_tid s),
          lib_next_tid := lib_next_tid s + 1\<rparr>)"

definition ensurePolling :: "props \<Rightarrow> render \<Rightarrow> int \<Rightarrow> int \<Rightarrow> real \<Rightarrow> lstate \<Rightarrow> lstate" where
  "ensurePolling P r deadline now rnd s =
     (if isPollingRef s then s else tick P r deadline now rnd (s\<lparr>isPollingRef := True\<rparr>))"

definition injectScriptTag :: "render \<Rightarrow> lstate \<Rightarrow> lstate" where
  "injectScriptTag r s =
     (case scriptRef s of
        Some _ \<Rightarrow> s
      | None \<Rightarrow>
          (let sc = \<lparr>sid = scripts_created s + 1, onerror_render = r\<rparr> in
           s\<lparr>head_scripts := head_scripts s @ [sc], scriptRef := Some sc,
             scripts_created := scripts_created s + 1\<rparr>))"

text \<open>\<^verbatim>\<open>tryLoadLibrary()\<close> of render \<open>r\<close>.\<close>

definition tryLoadLibrary :: "props \<Rightarrow> render \<Rightarrow> int \<Rightarrow> real \<Rightarrow> lstate \<Rightarrow> lstate" where
  "tryLoadLibrary P r now rnd s =
     (if \<not> isBrowser P then s
      else if cap_isLibraryLoaded r \<or> cap_libraryStatus r = Loading then s
      else
        ensurePolling P r (now + loadTimeout P) now rnd
          (injectScriptTag r (s\<lparr>libraryStatus := Loading, libraryError := None\<rparr>)))"

text \<open>
  What can happen to a mounted provider: React renders with the current state and runs the
  effect \<^verbatim>\<open>tryLoadLibrary()\<close> of that render; a pending timeout fires (no earlier than its
  delay, which \<^verbatim>\<open>setTimeout\<close> truncates to whole milliseconds); the injected script
  element reports an error; the injected script runs and publishes the pipeline.
\<close>

datatype lib_event = EvRender | EvTimer nat | EvScriptError | EvScriptExecuted

definition timer_due :: "int \<Rightarrow> 'cb timer \<Rightarrow> bool" where
  "timer_due now x = (\<lfloor>delay x\<rfloor> \<le> now - set_at x)"

definition current_render :: "lstate \<Rightarrow> render" where
  "current_render s =
     \<lparr>cap_isLibraryLoaded = isLibraryLoaded s, cap_libraryStatus = libraryStatus s\<rparr>"

text \<open>One event at time \<open>now\<close>; \<open>rnd\<close> is what \<^verbatim>\<open>Math.random()\<close> returns if it is called.\<close>

definition lib_step :: "props \<Rightarrow> int \<Rightarrow> real \<Rightarrow> lib_event \<Rightarrow> lstate \<Rightarrow> lstate" where
  "lib_step P now rnd ev s =
     (case ev of
        EvRender \<Rightarrow> tryLoadLibrary P (current_render s) now rnd s
      | EvTimer t \<Rightarrow>
          (case find (\<lambda>x. tid x = t) (lib_timers s) of
             None \<Rightarrow> s
           | Some x \<Rightarrow>
               if \<not> timer_due now x then s
               else
                 (let s1 = s\<lparr>lib_timers := filter (\<lambda>y. tid y \<noteq> t) (lib_timers s)\<rparr> in
                  case callback x of
                    LibTick r deadline \<Rightarrow> tick P r deadline now rnd s1
                  | LibRetry r \<Rightarrow> tryLoadLibrary P r now rnd s1))
      | EvScriptError \<Rightarrow>
          (case scriptRef s of
             None \<Rightarrow> s
           | Some sc \<Rightarrow>
               handleLibraryFailure P (onerror_render sc) now rnd (JsError ''Script load error'')
                 (removeScriptTag (clearPolling s)))
      | EvScriptExecuted \<Rightarrow> s\<lparr>pipeline_present := True\<rparr>)"

text \<open>A history of events, each with its time and random draw, oldest first.\<close>

fun lib_run :: "props \<Rightarrow> (int \<times> real \<times> lib_event) list \<Rightarrow> lstate \<Rightarrow> lstate" where
  "lib_run P [] s = s"
| "lib_run P ((now, rnd, ev) # evs) s = lib_run P evs (lib_step P now rnd ev s)"

text \<open>The state at mount: the initial values of the state cells and refs.\<close>

definition initial_lstate :: lstate where
  "initial_lstate =
     \<lparr>isLibraryLoaded = False, libraryStatus = Idle, libraryError = None, scriptRef = None,
      pollTimerRef = None, isPollingRef = False, libraryAttemptRef = 0, readyPromise = None,
      head_scripts = [], scripts_created = 0, lib_timers = [], lib_next_tid = 1,
      onLibraryError_calls = [], pipeline_present = False\<rparr>"

text \<open>
  The three shapes a state of the machine can have: nothing pending; a poll loop running
  with its script element in the document; a retry waiting for its backoff delay.
  A render \<open>passes\<close> when \<^verbatim>\<open>tryLoadLibrary\<close> of that render gets past its guard.
\<close>

definition passes :: "render \<Rightarrow> bool" where
  "passes r = (\<not> cap_isLibraryLoaded r \<and> cap_libraryStatus r \<noteq> Loading)"

definition quiet :: "lstate \<Rightarrow> bool" where
  "quiet s =
     (lib_timers s = [] \<and> scriptRef s = None \<and> head_scripts s = [] \<and> \<not> isPollingRef s
      \<and> pollTimerRef s = None \<and> libraryStatus s \<noteq> Loading
      \<and> (isLibraryLoaded s \<longleftrightarrow> libraryStatus s = Ready))"

definition polling :: "lstate \<Rightarrow> bool" where
  "polling s =
     (libraryStatus s = Loading \<and> \<not> isLibraryLoaded s \<and> isPollingRef s
      \<and> (case scriptRef s of
            None \<Rightarrow> False
          | Some sc \<Rightarrow> head_scripts s = [sc] \<and> passes (onerror_render sc))
      \<and> (case lib_timers s of
            [x] \<Rightarrow>
              pollTimerRef s = Some (tid x)
              \<and> (case callback x of LibTick r d \<Rightarrow> passes r | LibRetry r \<Rightarrow> False)
          | _ \<Rightarrow> False))"

definition backoff :: "lstate \<Rightarrow> bool" where
  "backoff s =
     (libraryStatus s = Loading \<and> \<not> isLibraryLoaded s \<and> \<not> isPollingRef s
      \<and> scriptRef s = None \<and> head_scripts s = [] \<and> pollTimerRef s = None
      \<and> (case lib_timers s of
            [x] \<Rightarrow> (case callback x of LibRetry r \<Rightarrow> passes r | LibTick r d \<Rightarrow> False)
          | _ \<Rightarrow> False))"

definition lib_inv :: "props \<Rightarrow> lstate \<Rightarrow> bool" where
  "lib_inv P s = (quiet s \<or> (isBrowser P \<and> (polling s \<or> backoff s)))"

text \<open>
  The two ways a load attempt fails: the injected script element reports an error, or a
  due \<^verbatim>\<open>tick\<close> finds no pipeline at or after its deadline.
\<close>

definition library_failure :: "int \<Rightarrow> lib_event \<Rightarrow> lstate \<Rightarrow> bool" where
  "library_failure now ev s =
     (case ev of
        EvScriptError \<Rightarrow> scriptRef s \<noteq> None
      | EvTimer t \<Rightarrow>
          (case find (\<lambda>x. tid x = t) (lib_timers s) of
             None \<Rightarrow> False
           | Some x \<Rightarrow>
               timer_due now x
               \<and> (case callback x of
                     LibTick r d \<Rightarrow> \<not> pipeline_present s \<and> d \<le> now
                   | LibRetry r \<Rightarrow> False))
      | _ \<Rightarrow> False)"

text \<open>The state left by \<^verbatim>\<open>clearPolling\<close> and \<^verbatim>\<open>removeScriptTag\<close>.\<close>

definition cleared :: "lstate \<Rightarrow> bool" where
  "cleared s =
     (lib_timers s = [] \<and> scriptRef s = None \<and> head_scripts s = [] \<and> \<not> isPollingRef s
      \<and> pollTimerRef s = None \<and> \<not> isLibraryLoaded s)"

section \<open>The model cache\<close>

text \<open>
  A handle the runtime's \<^verbatim>\<open>pipeline\<close> factory resolves to: its identity, whether it has
  a \<^verbatim>\<open>dispose\<close> function, and whether calling that function throws. Handles are objects
  or functions, hence truthy.
\<close>

record pipe =
  pipe_id :: nat
  has_dispose :: bool
  dispose_throws :: bool

text \<open>
  The model state cells and the pending-request ref, and the surroundings: the factory
  calls made so far as (task, model id), oldest first (the promise a call returns is
  named by its position in this list), the calls of \<^verbatim>\<open>onModelError\<close>, and the ids of the
  handles whose \<^verbatim>\<open>dispose\<close> was called.
\<close>

record mstate =
  models :: "string \<rightharpoonup> pipe"
  modelStatus :: "string \<rightharpoonup> ModelStatus"
  modelErrors :: "string \<rightharpoonup> jserror option"
  pendingRef :: "string \<rightharpoonup> nat"
  pipeline_calls :: "(string \<times> string) list"
  onModelError_calls :: "(string \<times> jserror) list"
  dispose_calls :: "nat list"

text \<open>
  Where a call of \<^verbatim>\<open>loadModel(modelId, task, retry)\<close> stands: suspended in
  \<^verbatim>\<open>attempt(remain)\<close> at \<^verbatim>\<open>await readyPromiseRef.current\<close>; suspended there at
  \<^verbatim>\<open>await p\<close> for the factory promise \<open>p\<close>; returned with a settled value; or returned
  with the pending promise found in \<^verbatim>\<open>pendingRef\<close>, whose fate it shares.
\<close>

datatype lm_call =
    LmAwaitReady string string int
  | LmAwaitPipeline string string int nat
  | LmReturned "pipe settle"
  | LmReturnedPending nat

text \<open>
  \<^verbatim>\<open>loadModel\<close> from its entry to the first \<^verbatim>\<open>await\<close>. The callback is memoised on
  \<^verbatim>\<open>models\<close>: it reads the \<^verbatim>\<open>models\<close> of the render that created it, \<open>cap_models\<close>.
\<close>

definition loadModel ::
  "(string \<rightharpoonup> pipe) \<Rightarrow> string \<Rightarrow> string \<Rightarrow> int \<Rightarrow> mstate \<Rightarrow> lm_call \<times> mstate"
where
  "loadModel cap_models modelId task retry s =
     (case cap_models modelId of
        Some pipe \<Rightarrow> (LmReturned (Fulfilled pipe), s)
      | None \<Rightarrow>
          (case pendingRef s modelId of
             Some p \<Rightarrow> (LmReturnedPending p, s)
           | None \<Rightarrow>
               (LmAwaitReady modelId task retry,
                s\<lparr>modelStatus := (modelStatus s)(modelId \<mapsto> Loading),
                  modelErrors := (modelErrors s)(modelId \<mapsto> None)\<rparr>)))"

text \<open>The \<^verbatim>\<open>catch\<close> block of \<^verbatim>\<open>attempt(remain)\<close>; \<open>cb\<close> tells whether an
  \<^verbatim>\<open>onModelError\<close> callback was supplied.\<close>

definition attempt_catch ::
  "bool \<Rightarrow> string \<Rightarrow> string \<Rightarrow> int \<Rightarrow> jserror \<Rightarrow> mstate \<Rightarrow> lm_call \<times> mstate"
where
  "attempt_catch cb modelId task remain err s =
     (if remain > 0 then (LmAwaitReady modelId task (remain - 1), s)
      else
        (LmReturned (Rejected err),
         s\<lparr>modelErrors := (modelErrors s)(modelId \<mapsto> Some err),
           modelStatus := (modelStatus s)(modelId \<mapsto> Error),
           pendingRef := (pendingRef s)(modelId := None),
           onModelError_calls :=
             onModelError_calls s @ (if cb then [(modelId, err)] else [])\<rparr>))"

text \<open>The continuation of \<^verbatim>\<open>await readyPromiseRef.current\<close>: the factory is called and
  its promise registered.\<close>

definition attempt_ready ::
  "bool \<Rightarrow> string \<Rightarrow> string \<Rightarrow> int \<Rightarrow> unit settle \<Rightarrow> mstate \<Rightarrow> lm_call \<times> mstate"
where
  "attempt_ready cb modelId task remain r s =
     (case r of
        Fulfilled _ \<Rightarrow>
          (let p = length (pipeline_calls s) in
           (LmAwaitPipeline modelId task remain p,
            s\<lparr>pipeline_calls := pipeline_calls s @ [(task, modelId)],
              pendingRef := (pendingRef s)(modelId \<mapsto> p)\<rparr>))
      | Rejected err \<Rightarrow> attempt_catch cb modelId task remain err s)"

text \<open>The continuation of \<^verbatim>\<open>await p\<close>.\<close>

definition attempt_settled ::
  "bool \<Rightarrow> string \<Rightarrow> string \<Rightarrow> int \<Rightarrow> pipe settle \<Rightarrow> mstate \<Rightarrow> lm_call \<times> mstate"
where
  "attempt_settled cb modelId task remain r s =
     (case r of
        Fulfilled pipe \<Rightarrow>
          (LmReturned (Fulfilled pipe),
           s\<lparr>models := (models s)(modelId \<mapsto> pipe),
             modelStatus := (modelStatus s)(modelId \<mapsto> Ready),
             pendingRef := (pendingRef s)(modelId := None)\<rparr>)
      | Rejected err \<Rightarrow> attempt_catch cb modelId task remain err s)"

definition unloadModel :: "string \<Rightarrow> mstate \<Rightarrow> mstate" where
  "unloadModel modelId s =
     s\<lparr>pendingRef := (pendingRef s)(modelId := None),
       dispose_calls :=
         (case models s modelId of
            Some pipe \<Rightarrow>
              if has_dispose pipe then dispose_calls s @ [pipe_id pipe] else dispose_calls s
          | None \<Rightarrow> dispose_calls s),
       models := (models s)(modelId := None),
       modelStatus := (modelStatus s)(modelId := None),
       modelErrors := (modelErrors s)(modelId := None)\<rparr>"

text \<open>
  One call of \<^verbatim>\<open>loadModel\<close> on its own, with the library ready: \<open>outs\<close> is what the
  successive factory promises settle with. A call still suspended when \<open>outs\<close> is used up
  stays suspended.
\<close>

fun attempt_run ::
  "bool \<Rightarrow> string \<Rightarrow> string \<Rightarrow> int \<Rightarrow> pipe settle list \<Rightarrow> mstate \<Rightarrow> lm_call \<times> mstate"
where
  "attempt_run cb modelId task remain [] s =
     attempt_ready cb modelId task remain (Fulfilled ()) s"
| "attempt_run cb modelId task remain (out # outs) s =
     (case attempt_ready cb modelId task remain (Fulfilled ()) s of
        (LmAwaitPipeline m t k p, s1) \<Rightarrow>
          (case attempt_settled cb m t k out s1 of
             (LmAwaitReady m2 t2 k2, s2) \<Rightarrow> attempt_run cb m2 t2 k2 outs s2
           | other \<Rightarrow> other)
      | other \<Rightarrow> other)"

definition loadModel_run ::
  "bool \<Rightarrow> (string \<rightharpoonup> pipe) \<Rightarrow> string \<Rightarrow> string \<Rightarrow> int \<Rightarrow> pipe settle list \<Rightarrow> mstate
     \<Rightarrow> lm_call \<times> mstate"
where
  "loadModel_run cb cap_models modelId task retry outs s =
     (case loadModel cap_models modelId task retry s of
        (LmAwaitReady m t k, s1) \<Rightarrow> attempt_run cb m t k outs s1
      | other \<Rightarrow> other)"

text \<open>
  Several calls interleaved on the one thread. The system is the model state, the calls
  made so far in order, and what each factory promise has settled with.
\<close>

record msystem =
  mst :: mstate
  lm_calls :: "lm_call list"
  settled :: "nat \<rightharpoonup> pipe settle"

text \<open>
  A caller invokes \<^verbatim>\<open>loadModel\<close> (of a render with the given \<^verbatim>\<open>models\<close>) or
  \<^verbatim>\<open>unloadModel\<close>; the call with the given number resumes after the ready promise
  settled; the factory promise with the given number settles and the call awaiting it
  resumes.
\<close>

datatype lm_event =
    EvLoadModel "string \<rightharpoonup> pipe" string string int
  | EvUnloadModel string
  | EvReadySettled nat "unit settle"
  | EvPipelineSettled nat "pipe settle"

fun resume_pipeline ::
  "bool \<Rightarrow> nat \<Rightarrow> pipe settle \<Rightarrow> lm_call list \<Rightarrow> mstate \<Rightarrow> lm_call list \<times> mstate"
where
  "resume_pipeline cb p r [] s = ([], s)"
| "resume_pipeline cb p r (c # cs) s =
     (case c of
        LmAwaitPipeline m t k q \<Rightarrow>
          if q = p then
            (let (c', s1) = attempt_settled cb m t k r s;
                 (cs', s2) = resume_pipeline cb p r cs s1
             in (c' # cs', s2))
          else (let (cs', s2) = resume_pipeline cb p r cs s in (c # cs', s2))
      | _ \<Rightarrow> (let (cs', s2) = resume_pipeline cb p r cs s in (c # cs', s2)))"

definition lm_step :: "bool \<Rightarrow> lm_event \<Rightarrow> msystem \<Rightarrow> msystem" where
  "lm_step cb ev sys =
     (case ev of
        EvLoadModel cap_models modelId task retry \<Rightarrow>
          (let (c, s1) = loadModel cap_models modelId task retry (mst sys) in
           sys\<lparr>mst := s1, lm_calls := lm_calls sys @ [c]\<rparr>)
      | EvUnloadModel modelId \<Rightarrow> sys\<lparr>mst := unloadModel modelId (mst sys)\<rparr>
      | EvReadySettled n r \<Rightarrow>
          (if n < length (lm_calls sys) then
             (case lm_calls sys ! n of
                LmAwaitReady m t k \<Rightarrow>
                  (let (c, s1) = attempt_ready cb m t k r (mst sys) in
                   sys\<lparr>mst := s1, lm_calls := (lm_calls sys)[n := c]\<rparr>)
              | _ \<Rightarrow> sys)
           else sys)
      | EvPipelineSettled p r \<Rightarrow>
          (if p < length (pipeline_calls (mst sys)) \<and> settled sys p = None then
             (let (cs, s1) = resume_pipeline cb p r (lm_calls sys) (mst sys) in
              sys\<lparr>mst := s1, lm_calls := cs, settled := (settled sys)(p \<mapsto> r)\<rparr>)
           else sys))"

fun lm_run :: "bool \<Rightarrow> lm_event list \<Rightarrow> msystem \<Rightarrow> msystem" where
  "lm_run cb [] sys = sys"
| "lm_run cb (ev # evs) sys = lm_run cb evs (lm_step cb ev sys)"

definition initial_mstate :: mstate where
  "initial_mstate =
     \<lparr>models = Map.empty, modelStatus = Map.empty, modelErrors = Map.empty,
      pendingRef = Map.empty, pipeline_calls = [], onModelError_calls = [],
      dispose_calls = []\<rparr>"

definition initial_msystem :: msystem where
  "initial_msystem = \<lparr>mst = initial_mstate, lm_calls = [], settled = Map.empty\<rparr>"

text \<open>The factory promises for a model id that have not settled: its calls in flight.\<close>

definition in_flight :: "msystem \<Rightarrow> string \<Rightarrow> nat list" where
  "in_flight sys modelId =
     filter (\<lambda>p. snd (pipeline_calls (mst sys) ! p) = modelId \<and> settled sys p = None)
       [0 ..< length (pipeline_calls (mst sys))]"

text \<open>What the promise returned to the caller of call \<open>n\<close> has settled with, if it has.\<close>

definition call_result :: "msystem \<Rightarrow> nat \<Rightarrow> pipe settle option" where
  "call_result sys n =
     (case lm_calls sys ! n of
        LmReturned r \<Rightarrow> Some r
      | LmReturnedPending p \<Rightarrow> settled sys p
      | _ \<Rightarrow> None)"

text \<open>How a state \<open>s'\<close> differs from \<open>s\<close> after a load of \<open>m\<close> whose attempts failed with
  \<open>errs\<close>.\<close>

definition all_failed :: "bool \<Rightarrow> string \<Rightarrow> string \<Rightarrow> jserror list \<Rightarrow> mstate \<Rightarrow> mstate \<Rightarrow> bool" where
  "all_failed cb m t errs s s' =
     (models s' = models s
      \<and> modelErrors s' = (modelErrors s)(m \<mapsto> Some (last errs))
      \<and> modelStatus s' = (modelStatus s)(m \<mapsto> Error)
      \<and> pendingRef s' = (pendingRef s)(m := None)
      \<and> pipeline_calls s' = pipeline_calls s @ replicate (length errs) (t, m)
      \<and> onModelError_calls s' = onModelError_calls s @ (if cb then [(m, last errs)] else [])
      \<and> dispose_calls s' = dispose_calls s)"

section \<open>Concrete inputs\<close>

definition scriptedEngine :: "nat \<Rightarrow> chunk list \<Rightarrow> engine" where
  "scriptedEngine n cs =
     \<lparr>eid = n,
      create = (\<lambda>req. if req ''stream'' = Some (JBool True) then Fulfilled (Stream cs)
                       else Fulfilled (Completion ''done'')),
      unload = Fulfilled ()\<rparr>"

definition scriptedRuntime :: webllm_ns where
  "scriptedRuntime =
     \<lparr>CreateMLCEngine =
        Some (\<lambda>modelId. ([InitProgress 1 ''ready''], Fulfilled (scriptedEngine 2 []))),
      prebuiltAppConfig = None,
      webllm_hasModelInCache = None\<rparr>"

definition initial_wstate :: wstate where
  "initial_wstate =
     \<lparr>webLLMEngineRef = None, isWebLLMLoaded = False, webLLMStatus = Idle,
      webLLMError = None, webLLMInitProgress = None, currentWebLLMModel = None,
      onWebLLMInitProgress_calls = [], webLLMPollTimerRef = None,
      isWebLLMPollingRef = False, webLLMAttemptRef = 0, webLLMReadyPromise = None,
      wl_timers = [], wl_next_tid = 1, live_sessions = [], rt_events = []\<rparr>"

definition session_wstate :: "string \<Rightarrow> wstate" where
  "session_wstate modelId =
     initial_wstate\<lparr>webLLMEngineRef := Some (scriptedEngine 1 []), isWebLLMLoaded := True,
       webLLMStatus := Ready, currentWebLLMModel := Some modelId,
       webLLMReadyPromise := Some (Fulfilled ()), live_sessions := [1]\<rparr>"

definition default_props :: props where
  "default_props =
     \<lparr>isBrowser = True, loadTimeout = 60000, maxRetries = 3, has_onLibraryError = True\<rparr>"

text \<open>The provider just after mount: the first render and its effect, at time 0.\<close>

definition mounted_lstate :: lstate where
  "mounted_lstate = lib_run default_props [(0, 0, EvRender)] initial_lstate"

definition pipeA :: pipe where
  "pipeA = \<lparr>pipe_id = 1, has_dispose = True, dispose_throws = False\<rparr>"

definition pipeB :: pipe where
  "pipeB = \<lparr>pipe_id = 2, has_dispose = True, dispose_throws = False\<rparr>"

text \<open>One \<^verbatim>\<open>loadModel("m", "t")\<close> whose factory call is in flight.\<close>

definition loading_msystem :: msystem where
  "loading_msystem =
     lm_run True [EvLoadModel Map.empty ''m'' ''t'' 1, EvReadySettled 0 (Fulfilled ())]
       initial_msystem"


text \<open>A runtime whose cache probe rejects, and one whose probe answers true.\<close>

definition rejectingProbeRuntime :: webllm_ns where
  "rejectingProbeRuntime =
     scriptedRuntime\<lparr>webllm_hasModelInCache :=
       Some (\<lambda>modelId. Rejected (JsError ''cache unavailable''))\<rparr>"

definition cachedProbeRuntime :: webllm_ns where
  "cachedProbeRuntime =
     scriptedRuntime\<lparr>webllm_hasModelInCache := Some (\<lambda>modelId. Fulfilled True)\<rparr>"

section \<open>Streaming chat completion delivers chunks in order\<close>

lemma for_await_chunks_filter:
  "for_await_chunks cs calls = calls @ filter (\<lambda>s. s \<noteq> '''') (map chunk_content cs)"
  by (induction cs arbitrary: calls) (simp_all add: Let_def)

text \<open>
  C7. With an engine present and the ready promise fulfilled, when the runtime answers the
  request with a finite sequence of chunks, \<^verbatim>\<open>onChunk\<close> is invoked once for each chunk
  whose extracted content is non-empty, with that content, in the order of the sequence;
  chunks with empty or missing content are skipped; the promise is fulfilled after the
  last chunk. A chunk appended to the sequence only appends to the calls, so nothing is
  buffered or reordered. For the three chunks "Hello", " there", "!" the calls are exactly
  these three strings in that order, and they concatenate to "Hello there!".
\<close>

theorem stream_chunks_in_order:
  assumes "engineRef = Some e"
      and "ready = Some (Fulfilled ())"
      and "create e (streamChatCompletion_request messages options) = Fulfilled (Stream chunks)"
  shows "streamChatCompletion engineRef ready messages options =
           (filter (\<lambda>s. s \<noteq> '''') (map chunk_content chunks), Some (Fulfilled ()))
       \<and> (\<forall>cs c calls. for_await_chunks (cs @ [c]) calls =
             (if chunk_content c = '''' then for_await_chunks cs calls
              else for_await_chunks cs calls @ [chunk_content c]))
       \<and> for_await_chunks
           [Chunk [Choice (Some (Delta (Some ''Hello'')))],
            Chunk [Choice (Some (Delta (Some '' there'')))],
            Chunk [Choice (Some (Delta (Some ''!'')))]] [] = [''Hello'', '' there'', ''!'']
       \<and> concat [''Hello'', '' there'', ''!''] = ''Hello there!''"
  using assms
  by (simp add: streamChatCompletion_def for_await_chunks_filter chunk_content_def)

theorem stream_chunks_in_order_witness:
  "streamChatCompletion
     (Some (scriptedEngine 1
        [Chunk [Choice (Some (Delta (Some ''Hello'')))], Chunk [], Chunk [Choice None],
         Chunk [Choice (Some (Delta None))], Chunk [Choice (Some (Delta (Some '''')))],
         Chunk [Choice (Some (Delta (Some '' there'')))],
         Chunk [Choice (Some (Delta (Some ''!'')))]]))
     (Some (Fulfilled ())) [\<lparr>role = ''user'', msg_content = ''Hello''\<rparr>] Map.empty
   = ([''Hello'', '' there'', ''!''], Some (Fulfilled ()))"
proof -
  let ?cs = "[Chunk [Choice (Some (Delta (Some ''Hello'')))], Chunk [], Chunk [Choice None],
         Chunk [Choice (Some (Delta None))], Chunk [Choice (Some (Delta (Some '''')))],
         Chunk [Choice (Some (Delta (Some '' there'')))],
         Chunk [Choice (Some (Delta (Some ''!'')))]]"
  let ?m = "[\<lparr>role = ''user'', msg_content = ''Hello''\<rparr>]"
  have c: "create (scriptedEngine 1 ?cs) (streamChatCompletion_request ?m Map.empty)
             = Fulfilled (Stream ?cs)"
    by (simp add: scriptedEngine_def streamChatCompletion_request_def)
  from stream_chunks_in_order [OF refl refl c]
  show ?thesis by (simp add: chunk_content_def)
qed

section \<open>Caller options override the fixed request fields\<close>

text \<open>
  C9. In the request built by \<^verbatim>\<open>chatCompletion\<close> and by \<^verbatim>\<open>streamChatCompletion\<close> every
  property of the caller's options wins over the fixed field of the same name: options
  with \<^verbatim>\<open>stream: false\<close> give a request with \<^verbatim>\<open>stream: false\<close>, and a \<^verbatim>\<open>messages\<close>
  property in the options replaces the messages argument. The fixed fields survive only
  where the options do not name them. That request is what the engine is called with.
\<close>

theorem options_override_fixed_fields:
  "(\<forall>k v. options k = Some v \<longrightarrow>
       chatCompletion_request messages options k = Some v
     \<and> streamChatCompletion_request messages options k = Some v)
   \<and> (options ''stream'' = Some (JBool False) \<longrightarrow>
        streamChatCompletion_request messages options ''stream'' = Some (JBool False))
   \<and> (options ''stream'' = None \<longrightarrow>
        streamChatCompletion_request messages options ''stream'' = Some (JBool True))
   \<and> (options ''messages'' = Some (JMessages other) \<longrightarrow>
        chatCompletion_request messages options ''messages'' = Some (JMessages other)
      \<and> streamChatCompletion_request messages options ''messages'' = Some (JMessages other))
   \<and> (options ''messages'' = None \<longrightarrow>
        chatCompletion_request messages options ''messages'' = Some (JMessages messages)
      \<and> streamChatCompletion_request messages options ''messages'' = Some (JMessages messages))
   \<and> chatCompletion (Some e) (Some (Fulfilled ())) messages options =
        Some (create e (chatCompletion_request messages options))
   \<and> fst (streamChatCompletion (Some e) (Some (Fulfilled ())) messages options) =
        (case create e (streamChatCompletion_request messages options) of
           Fulfilled (Stream chunks) \<Rightarrow> for_await_chunks chunks []
         | _ \<Rightarrow> [])"
  by (auto simp: chatCompletion_request_def streamChatCompletion_request_def map_add_def
        chatCompletion_def streamChatCompletion_def split: settle.splits completion.splits)

theorem options_override_fixed_fields_witness:
  "streamChatCompletion_request [\<lparr>role = ''user'', msg_content = ''a''\<rparr>]
       [''stream'' \<mapsto> JBool False, ''messages'' \<mapsto> JMessages []] ''stream'' = Some (JBool False)
   \<and> chatCompletion_request [\<lparr>role = ''user'', msg_content = ''a''\<rparr>]
       [''stream'' \<mapsto> JBool False, ''messages'' \<mapsto> JMessages []] ''messages'' = Some (JMessages [])
   \<and> streamChatCompletion
        (Some (scriptedEngine 1 [Chunk [Choice (Some (Delta (Some ''Hello'')))]]))
        (Some (Fulfilled ())) [\<lparr>role = ''user'', msg_content = ''a''\<rparr>]
        [''stream'' \<mapsto> JBool False] =
          ([], Some (Rejected (JsError ''TypeError: chunks is not async iterable'')))"
  using options_override_fixed_fields
     [of "[''stream'' \<mapsto> JBool False, ''messages'' \<mapsto> JMessages []]"
         "[\<lparr>role = ''user'', msg_content = ''a''\<rparr>]" "[]"]
  by (simp add: streamChatCompletion_def streamChatCompletion_request_def scriptedEngine_def)

section \<open>The read-only WebLLM queries\<close>

text \<open>
  C4 as stated fails: with WebLLM disabled, or enabled with no \<^verbatim>\<open>window.webllm\<close>,
  \<^verbatim>\<open>getAvailableWebLLMModels()\<close> does not resolve to the empty list.
\<close>

theorem queries_fail_soft_counterexample:
  "getAvailableWebLLMModels False None \<noteq> Fulfilled []
   \<and> getAvailableWebLLMModels True None \<noteq> Fulfilled []"
  by (simp add: getAvailableWebLLMModels_def)

text \<open>
  C4, amended. \<^verbatim>\<open>hasModelInCache(id)\<close> fails soft: it resolves to false when WebLLM is
  disabled or \<^verbatim>\<open>window.webllm\<close> or its cache probe is absent; with the probe present it
  resolves to what the probe resolves to, and to false when the probe rejects; it never
  rejects. \<^verbatim>\<open>getAvailableWebLLMModels()\<close> rejects with "WebLLM is not enabled" when WebLLM
  is disabled and with "WebLLM library not loaded yet" when \<^verbatim>\<open>window.webllm\<close> or its
  \<^verbatim>\<open>prebuiltAppConfig\<close> is absent; with the catalog present it resolves to the model list,
  and to the empty list only when reading the list throws.
\<close>

theorem queries_when_capability_absent:
  "((\<not> enableWebLLM \<or> webllm = None
       \<or> (\<exists>ns. webllm = Some ns \<and> webllm_hasModelInCache ns = None)) \<longrightarrow>
      hasModelInCache enableWebLLM webllm modelId = Fulfilled False)
   \<and> (\<forall>ns checkCache. enableWebLLM \<and> webllm = Some ns
          \<and> webllm_hasModelInCache ns = Some checkCache \<longrightarrow>
        hasModelInCache enableWebLLM webllm modelId =
          (case checkCache modelId of
             Fulfilled b \<Rightarrow> Fulfilled b
           | Rejected err \<Rightarrow> Fulfilled False))
   \<and> (\<forall>ns checkCache err. enableWebLLM \<and> webllm = Some ns
          \<and> webllm_hasModelInCache ns = Some checkCache
          \<and> checkCache modelId = Rejected err \<longrightarrow>
        hasModelInCache enableWebLLM webllm modelId = Fulfilled False)
   \<and> (\<forall>err. hasModelInCache enableWebLLM webllm modelId \<noteq> Rejected err)
   \<and> (\<not> enableWebLLM \<longrightarrow>
        getAvailableWebLLMModels enableWebLLM webllm = Rejected (JsError ''WebLLM is not enabled''))
   \<and> (enableWebLLM \<and> (webllm = None \<or> (\<exists>ns. webllm = Some ns \<and> prebuiltAppConfig ns = None)) \<longrightarrow>
        getAvailableWebLLMModels enableWebLLM webllm =
          Rejected (JsError ''WebLLM library not loaded yet''))
   \<and> (\<forall>ns cfg. enableWebLLM \<and> webllm = Some ns \<and> prebuiltAppConfig ns = Some cfg \<longrightarrow>
        getAvailableWebLLMModels enableWebLLM webllm =
          (case model_list cfg of Inr ms \<Rightarrow> Fulfilled ms | Inl e \<Rightarrow> Fulfilled []))"
  by (auto simp: hasModelInCache_def getAvailableWebLLMModels_def
        split: option.splits settle.splits sum.splits)

theorem queries_when_capability_absent_witness:
  "hasModelInCache False None ''m'' = Fulfilled False
   \<and> hasModelInCache True (Some scriptedRuntime) ''m'' = Fulfilled False
   \<and> hasModelInCache True (Some rejectingProbeRuntime) ''m'' = Fulfilled False
   \<and> hasModelInCache True (Some cachedProbeRuntime) ''m'' = Fulfilled True
   \<and> getAvailableWebLLMModels False (Some scriptedRuntime) =
       Rejected (JsError ''WebLLM is not enabled'')
   \<and> getAvailableWebLLMModels True (Some scriptedRuntime) =
       Rejected (JsError ''WebLLM library not loaded yet'')
   \<and> getAvailableWebLLMModels True
       (Some (scriptedRuntime\<lparr>prebuiltAppConfig := Some \<lparr>model_list = Inl (JsError ''x'')\<rparr>\<rparr>)) =
       Fulfilled []"
proof -
  have p: "prebuiltAppConfig scriptedRuntime = None"
    "webllm_hasModelInCache scriptedRuntime = None"
    "webllm_hasModelInCache rejectingProbeRuntime
       = Some (\<lambda>modelId. Rejected (JsError ''cache unavailable''))"
    "webllm_hasModelInCache cachedProbeRuntime = Some (\<lambda>modelId. Fulfilled True)"
    by (simp_all add: scriptedRuntime_def rejectingProbeRuntime_def cachedProbeRuntime_def)
  show ?thesis
    using queries_when_capability_absent [of False None "''m''"]
      queries_when_capability_absent [of True "Some scriptedRuntime" "''m''"]
      queries_when_capability_absent [of True "Some rejectingProbeRuntime" "''m''"]
      queries_when_capability_absent [of True "Some cachedProbeRuntime" "''m''"]
      queries_when_capability_absent [of False "Some scriptedRuntime" "''m''"]
      queries_when_capability_absent
        [of True "Some (scriptedRuntime\<lparr>prebuiltAppConfig := Some \<lparr>model_list = Inl (JsError ''x'')\<rparr>\<rparr>)" "''m''"]
    by (simp add: p)
qed

section \<open>The engine session\<close>

lemma report_progress_eq:
  "report_progress ps s =
     s\<lparr>webLLMInitProgress := (if ps = [] then webLLMInitProgress s else Some (last ps)),
       onWebLLMInitProgress_calls := onWebLLMInitProgress_calls s @ ps\<rparr>"
proof (induction ps arbitrary: s)
  case Nil
  then show ?case by (simp add: report_progress_def)
next
  case (Cons p ps)
  have "report_progress (p # ps) s = report_progress ps (initProgressCallback p s)"
    by (simp add: report_progress_def)
  then show ?case
    by (simp add: Cons.IH initProgressCallback_def)
qed

lemma scriptedEngine_sel:
  "unload (scriptedEngine n cs) = Fulfilled ()" "eid (scriptedEngine n cs) = n"
  by (simp_all add: scriptedEngine_def)

lemma scriptedRuntime_factory:
  "CreateMLCEngine scriptedRuntime =
     Some (\<lambda>modelId. ([InitProgress 1 ''ready''], Fulfilled (scriptedEngine 2 [])))"
  by (simp add: scriptedRuntime_def)

lemma session_wstate_sel:
  "webLLMEngineRef (session_wstate m) = Some (scriptedEngine 1 [])"
  "live_sessions (session_wstate m) = [eid (scriptedEngine 1 [])]"
  "rt_events (session_wstate m) = []"
  "currentWebLLMModel (session_wstate m) = Some m"
  by (simp_all add: session_wstate_def initial_wstate_def scriptedEngine_def)












text \<open>
  C10. \<^verbatim>\<open>loadWebLLMModel(id)\<close> has no path that returns the existing session. Whenever
  the engine ref holds an engine, whatever the current model id is (equal to \<open>id\<close> or
  not), the call first calls that engine's \<^verbatim>\<open>unload()\<close> and suspends on it; once the
  unload is fulfilled the ref is cleared and the factory is called for \<open>id\<close>; once the
  creation is fulfilled the ref holds the engine the factory produced.
\<close>

theorem reload_disposes_and_recreates:
  assumes "enableWebLLM" and "webllm = Some ns" and "CreateMLCEngine ns = Some factory"
      and "webLLMEngineRef s = Some e"
  shows "loadWebLLMModel enableWebLLM webllm modelId s =
           (LwAwaitUnload modelId factory e,
            s\<lparr>webLLMStatus := Loading, webLLMError := None,
              rt_events := rt_events s @ [UnloadCalled (eid e)]\<rparr>)
       \<and> (\<forall>t. loadWebLLMModel_after_unload modelId (Fulfilled ()) t =
             (LwAwaitCreate modelId,
              t\<lparr>webLLMEngineRef := None, rt_events := rt_events t @ [CreateCalled modelId]\<rparr>))
       \<and> (\<forall>t e'. loadWebLLMModel_after_create modelId (Fulfilled e') t =
             (LwReturned (Fulfilled ()),
              t\<lparr>webLLMEngineRef := Some e', isWebLLMLoaded := True, webLLMStatus := Ready,
                currentWebLLMModel := Some modelId\<rparr>))
       \<and> (\<forall>e'. unload e = Fulfilled () \<and> snd (factory modelId) = Fulfilled e' \<longrightarrow>
             snd (loadWebLLMModel_run enableWebLLM webllm modelId s) = Fulfilled ()
           \<and> webLLMEngineRef (last (fst (loadWebLLMModel_run enableWebLLM webllm modelId s)))
               = Some e'
           \<and> [UnloadCalled (eid e), UnloadSettled (eid e) (Fulfilled ()), CreateCalled modelId,
               CreateSettled modelId (Fulfilled (eid e'))]
               = drop (length (rt_events s))
                   (rt_events (last (fst (loadWebLLMModel_run enableWebLLM webllm modelId s)))))"
  using assms
  by (simp add: loadWebLLMModel_run_def loadWebLLMModel_def loadWebLLMModel_after_unload_def
       loadWebLLMModel_create_def loadWebLLMModel_finish_def
       loadWebLLMModel_after_create_def runtime_unload_def runtime_create_def Let_def
       report_progress_eq)

theorem reload_disposes_and_recreates_witness:
  "currentWebLLMModel (session_wstate ''A'') = Some ''A''
   \<and> fst (loadWebLLMModel True (Some scriptedRuntime) ''A'' (session_wstate ''A''))
       \<noteq> LwReturned (Fulfilled ())
   \<and> rt_events (last
       (fst (loadWebLLMModel_run True (Some scriptedRuntime) ''A'' (session_wstate ''A''))))
       = [UnloadCalled 1, UnloadSettled 1 (Fulfilled ()), CreateCalled ''A'',
          CreateSettled ''A'' (Fulfilled 2)]
   \<and> map_option eid (webLLMEngineRef (last
       (fst (loadWebLLMModel_run True (Some scriptedRuntime) ''A'' (session_wstate ''A'')))))
       = Some 2"
  using reload_disposes_and_recreates
          [OF TrueI refl scriptedRuntime_factory session_wstate_sel(1), of "''A''"]
  by (simp add: session_wstate_sel scriptedEngine_sel)

section \<open>Rounding to a double\<close>

lemma round_half_even_le: "y \<le> of_int n \<Longrightarrow> round_half_even y \<le> n"
proof -
  assume y: "y \<le> of_int n"
  then have f: "\<lfloor>y\<rfloor> \<le> n" by (simp add: floor_le_iff)
  show ?thesis
  proof (cases "\<lfloor>y\<rfloor> = n")
    case True
    then have "of_int n \<le> y" by (metis of_int_floor_le)
    with y have "y = of_int n" by simp
    then show ?thesis by (simp add: round_half_even_def)
  next
    case False
    with f have "\<lfloor>y\<rfloor> + 1 \<le> n" by simp
    then show ?thesis by (simp add: round_half_even_def Let_def)
  qed
qed

lemma round_half_even_ge: "of_int n \<le> y \<Longrightarrow> n \<le> round_half_even y"
proof -
  assume "of_int n \<le> y"
  then have "n \<le> \<lfloor>y\<rfloor>" by (simp add: le_floor_iff)
  then show ?thesis by (simp add: round_half_even_def Let_def)
qed

lemma round_half_even_below_half: "y < of_int n + 1 / 2 \<Longrightarrow> round_half_even y \<le> n"
proof -
  assume y: "y < of_int n + 1 / 2"
  then have "y < of_int (n + 1)" by simp
  then have "\<lfloor>y\<rfloor> < n + 1" by (simp only: floor_less_iff)
  then have f: "\<lfloor>y\<rfloor> \<le> n" by simp
  show ?thesis
  proof (cases "\<lfloor>y\<rfloor> = n")
    case True
    with y have "y - of_int \<lfloor>y\<rfloor> < 1 / 2" by simp
    with True show ?thesis by (simp add: round_half_even_def Let_def)
  next
    case False
    with f have "\<lfloor>y\<rfloor> + 1 \<le> n" by simp
    then show ?thesis by (simp add: round_half_even_def Let_def)
  qed
qed

lemma pow2_pos: "0 < pow2 e"
  by (simp add: pow2_def)

lemma halvings_bounds: "1 \<le> x \<Longrightarrow> 2 ^ halvings x \<le> x \<and> x < 2 ^ Suc (halvings x)"
proof (induction x rule: halvings.induct)
  case (1 x)
  show ?case
  proof (cases "2 \<le> x")
    case True
    then have "1 \<le> x / 2" by simp
    with 1 True have "2 ^ halvings (x / 2) \<le> x / 2 \<and> x / 2 < 2 ^ Suc (halvings (x / 2))"
      by blast
    moreover have "halvings x = Suc (halvings (x / 2))"
      using True by (simp add: halvings.simps [of x])
    ultimately show ?thesis by simp
  next
    case False
    then have "halvings x = 0" by (simp add: halvings.simps [of x])
    with False 1 show ?thesis by simp
  qed
qed

lemma halvings_eq: "2 ^ n \<le> x \<Longrightarrow> x < 2 ^ Suc n \<Longrightarrow> halvings x = n"
proof -
  assume a: "2 ^ n \<le> x" "x < 2 ^ Suc n"
  have "(1::real) \<le> 2 ^ n" by simp
  with a have x: "1 \<le> x" by linarith
  from halvings_bounds [OF x] have h: "2 ^ halvings x \<le> x" "x < 2 ^ Suc (halvings x)"
    by simp_all
  from h(1) a(2) have "(2::real) ^ halvings x < 2 ^ Suc n" by linarith
  then have 1: "halvings x < Suc n" by (simp only: power_strict_increasing_iff) 
  from a(1) h(2) have "(2::real) ^ n < 2 ^ Suc (halvings x)" by linarith
  then have 2: "n < Suc (halvings x)" by (simp only: power_strict_increasing_iff)
  from 1 2 show ?thesis by simp
qed

lemma binade_le: "x < 2 ^ Suc n \<Longrightarrow> binade x \<le> int n"
proof (cases "1 \<le> x")
  case False
  then show ?thesis by (simp add: binade_def)
next
  case True
  assume b: "x < 2 ^ Suc n"
  from halvings_bounds [OF True] have "2 ^ halvings x \<le> x" by simp
  with b have "(2::real) ^ halvings x < 2 ^ Suc n" by linarith
  then have "halvings x < Suc n" by (simp only: power_strict_increasing_iff)
  with True show ?thesis by (simp add: binade_def)
qed

lemma binade_eq: "2 ^ n \<le> x \<Longrightarrow> x < 2 ^ Suc n \<Longrightarrow> binade x = int n"
proof -
  assume a: "2 ^ n \<le> x" "x < 2 ^ Suc n"
  have "(1::real) \<le> 2 ^ n" by simp
  with a have "1 \<le> x" by linarith
  with a show ?thesis by (simp add: binade_def halvings_eq)
qed

lemma int_on_grid: "e \<le> 52 \<Longrightarrow> of_int m = of_int (m * 2 ^ nat (52 - e)) * pow2 (e - 52)"
  by (cases "e = 52") (simp_all add: pow2_def)

lemma fl_le_int:
  assumes x: "0 < x" "x \<le> of_int m" and e: "binade x \<le> 52"
  shows "fl x \<le> of_int m"
proof -
  let ?q = "pow2 (binade x - 52)"
  let ?n = "m * 2 ^ nat (52 - binade x)"
  have g: "of_int m = of_int ?n * ?q" by (rule int_on_grid [OF e])
  have q: "0 < ?q" by (rule pow2_pos)
  from x(2) have "x \<le> of_int ?n * ?q" by (simp only: g [symmetric])
  with q have "x / ?q \<le> of_int ?n" by (simp add: pos_divide_le_eq)
  then have "round_half_even (x / ?q) \<le> ?n" by (rule round_half_even_le)
  then have "(of_int (round_half_even (x / ?q)) :: real) \<le> of_int ?n" by (simp only: of_int_le_iff)
  with q have "of_int (round_half_even (x / ?q)) * ?q \<le> of_int ?n * ?q"
    by (simp only: mult_le_cancel_right) simp
  then have "of_int (round_half_even (x / ?q)) * ?q \<le> of_int m"
    by (simp only: g [symmetric])
  with x(1) show ?thesis by (simp add: fl_def Let_def)
qed

lemma fl_ge_int:
  assumes x: "0 < x" "of_int m \<le> x" and e: "binade x \<le> 52"
  shows "of_int m \<le> fl x"
proof -
  let ?q = "pow2 (binade x - 52)"
  let ?n = "m * 2 ^ nat (52 - binade x)"
  have g: "of_int m = of_int ?n * ?q" by (rule int_on_grid [OF e])
  have q: "0 < ?q" by (rule pow2_pos)
  from x(2) have "of_int ?n * ?q \<le> x" by (simp only: g [symmetric])
  with q have "of_int ?n \<le> x / ?q" by (simp add: pos_le_divide_eq)
  then have "?n \<le> round_half_even (x / ?q)" by (rule round_half_even_ge)
  then have "(of_int ?n :: real) \<le> of_int (round_half_even (x / ?q))" by (simp only: of_int_le_iff)
  with q have "of_int ?n * ?q \<le> of_int (round_half_even (x / ?q)) * ?q"
    by (simp only: mult_le_cancel_right) simp
  then have "of_int m \<le> of_int (round_half_even (x / ?q)) * ?q"
    by (simp only: g [symmetric])
  with x(1) show ?thesis by (simp add: fl_def Let_def)
qed


lemma fl_nonneg: "0 \<le> x \<Longrightarrow> 0 \<le> fl x"
proof (cases "x = 0")
  case True
  then show ?thesis by (simp add: fl_def)
next
  case False
  assume "0 \<le> x"
  with False have x: "0 < x" by simp
  let ?q = "pow2 (binade x - 52)"
  have q: "0 < ?q" by (rule pow2_pos)
  with x have "of_int 0 \<le> x / ?q" by simp
  then have "0 \<le> round_half_even (x / ?q)" by (rule round_half_even_ge)
  with q x show ?thesis by (simp add: fl_def Let_def)
qed

lemma doublings_half: "1 / 2 \<le> x \<Longrightarrow> x < 1 \<Longrightarrow> doublings x = 1"
  by (simp add: doublings.simps [of x] doublings.simps [of "2 * x"])

lemma double_below_one:
  assumes d: "fl r = r" and r: "0 \<le> r" "r < 1"
  shows "r \<le> 1 - 1 / 2 ^ 53"
proof (cases "r < 1 / 2")
  case True
  have "(1::real) / 2 ^ 53 \<le> 1 / 2 ^ 1"
    by (rule divide_left_mono) simp_all
  with True show ?thesis by simp
next
  case False
  then have h: "1 / 2 \<le> r" by simp
  with r have b: "binade r = - 1" by (simp add: binade_def doublings_half)
  have q: "pow2 (binade r - 52) = 1 / 2 ^ 53" by (simp add: b pow2_def)
  let ?n = "round_half_even (r / (1 / 2 ^ 53))"
  from h have pos: "0 < r" by simp
  from d pos have e: "r = of_int ?n * (1 / 2 ^ 53)"
    by (simp add: fl_def Let_def q)
  with r(2) have "of_int ?n * (1 / 2 ^ 53) < (1::real)" by simp
  then have "(of_int ?n :: real) < 2 ^ 53" by (simp add: field_simps)
  then have "(of_int ?n :: real) < of_int (2 ^ 53)" by simp
  then have "?n < 2 ^ 53" by (simp only: of_int_less_iff)
  then have "?n \<le> 2 ^ 53 - 1" by simp
  then have "(of_int ?n :: real) \<le> of_int (2 ^ 53 - 1)" by (simp only: of_int_le_iff)
  then have "of_int ?n * (1 / 2 ^ 53) \<le> (of_int (2 ^ 53 - 1) :: real) * (1 / 2 ^ 53)"
    by (rule mult_right_mono) simp
  also have "\<dots> = 1 - 1 / 2 ^ 53" by simp
  finally show ?thesis using e by simp
qed

lemma jitter_below_1000:
  assumes r: "0 \<le> r" "r \<le> 1 - 1 / 2 ^ 53"
  shows "fl (r * 1000) \<le> 1000 - 1 / 2 ^ 43"
proof (cases "r * 1000 < 2 ^ 9")
  case True
  show ?thesis
  proof (cases "r = 0")
    case True
    then show ?thesis by (simp add: fl_def)
  next
    case False
    with r have x: "0 < r * 1000" by simp
    from True have "binade (r * 1000) \<le> int 8" by (intro binade_le) simp
    then have e: "binade (r * 1000) \<le> 52" by simp
    from True have "r * 1000 \<le> of_int 512" by simp
    from fl_le_int [OF x this e] have "fl (r * 1000) \<le> 512" by simp
    moreover have "(1::real) / 2 ^ 43 \<le> 1 / 2 ^ 0" by (rule divide_left_mono) simp_all
    ultimately show ?thesis by simp
  qed
next
  case False
  let ?x = "r * 1000"
  from False have lo: "2 ^ 9 \<le> ?x" by simp
  from r(2) have "?x \<le> (1 - 1 / 2 ^ 53) * 1000" by simp
  also have "\<dots> = 1000 - 1000 / 2 ^ 53" by (simp add: algebra_simps)
  finally have up: "?x \<le> 1000 - 1000 / 2 ^ 53" .
  have "(0::real) < 1000 / 2 ^ 53" by simp
  with up have "?x < 1024" by linarith
  then have hi: "?x < 2 ^ Suc 9" by simp
  from binade_eq [OF lo hi] have b: "binade ?x = 9" by simp
  have q: "pow2 (binade ?x - 52) = 1 / 2 ^ 43" by (simp add: b pow2_def)
  from lo have pos: "0 < ?x" by simp
  let ?n = "1000 * 2 ^ 43 - 1 :: int"
  have "?x / (1 / 2 ^ 43) = ?x * 2 ^ 43" by simp
  also have "\<dots> \<le> (1000 - 1000 / 2 ^ 53) * 2 ^ 43"
    using up by (rule mult_right_mono) simp
  also have "\<dots> < of_int ?n + 1 / 2" by simp
  finally have "round_half_even (?x / (1 / 2 ^ 43)) \<le> ?n"
    by (rule round_half_even_below_half)
  then have "(of_int (round_half_even (?x / (1 / 2 ^ 43))) :: real) \<le> of_int ?n"
    by (simp only: of_int_le_iff)
  then have "of_int (round_half_even (?x / (1 / 2 ^ 43))) * (1 / 2 ^ 43)
               \<le> (of_int ?n :: real) * (1 / 2 ^ 43)"
    by (rule mult_right_mono) simp
  also have "\<dots> = 1000 - 1 / 2 ^ 43" by simp
  finally show ?thesis using pos by (simp add: fl_def Let_def q)
qed

lemma fl_sum_bounds:
  assumes b: "1 \<le> b" "b \<le> 60000" and j: "0 \<le> j" "j < 1000"
  shows "real b \<le> fl (real b + j) \<and> fl (real b + j) \<le> real b + 1000"
proof -
  let ?x = "real b + j"
  from b j have x: "0 < ?x" by simp
  from b j have "?x < 61000" by simp
  then have "?x < 2 ^ Suc 15" by simp
  then have "binade ?x \<le> int 15" by (rule binade_le)
  then have e: "binade ?x \<le> 52" by simp
  have "of_int (int b) \<le> ?x" using j by simp
  from fl_ge_int [OF x this e] have 1: "real b \<le> fl ?x" by simp
  have "?x \<le> of_int (int b + 1000)" using j by simp
  from fl_le_int [OF x this e] have 2: "fl ?x \<le> real b + 1000" by simp
  from 1 2 show ?thesis by simp
qed

lemma floor_eqI: "of_int n \<le> y \<Longrightarrow> y < of_int n + 1 \<Longrightarrow> \<lfloor>y\<rfloor> = n"
  by (simp add: floor_eq_iff)

lemma fl_eval:
  assumes b: "2 ^ n \<le> x" "x < 2 ^ Suc n" and n: "n \<le> 52"
      and r: "round_half_even (x * 2 ^ (52 - n)) = m"
  shows "fl x = of_int m / 2 ^ (52 - n)"
proof -
  have "(0::real) < 2 ^ n" by simp
  with b(1) have pos: "0 < x" by linarith
  from binade_eq [OF b] have e: "binade x = int n" .
  have q: "pow2 (binade x - 52) = 1 / 2 ^ (52 - n)"
  proof (cases "n = 52")
    case True
    then show ?thesis by (simp add: e pow2_def)
  next
    case False
    with n have "n < 52" by simp
    then have "nat (52 - int n) = 52 - n" "\<not> (52::int) \<le> int n" by simp_all
    then show ?thesis by (simp add: e pow2_def)
  qed
  have "x / (1 / 2 ^ (52 - n)) = x * 2 ^ (52 - n)" by simp
  with pos r show ?thesis by (simp add: fl_def Let_def q)
qed

lemma round_half_even_down:
  "of_int k \<le> y \<Longrightarrow> y < of_int k + 1 / 2 \<Longrightarrow> round_half_even y = k"
proof -
  assume a: "of_int k \<le> y" "y < of_int k + 1 / 2"
  then have "\<lfloor>y\<rfloor> = k" by (simp add: floor_eq_iff)
  with a show ?thesis by (simp add: round_half_even_def Let_def)
qed

lemma round_half_even_up:
  "of_int k + 1 / 2 < y \<Longrightarrow> y < of_int k + 1 \<Longrightarrow> round_half_even y = k + 1"
proof -
  assume a: "of_int k + 1 / 2 < y" "y < of_int k + 1"
  then have "\<lfloor>y\<rfloor> = k" by (simp add: floor_eq_iff)
  with a show ?thesis by (simp add: round_half_even_def Let_def)
qed

lemma fl_top_draw: "fl ((1 - 1 / 2 ^ 52) * 1000) = 1000 - 1 / 2 ^ 42"
proof -
  define x :: real where "x = (1 - 1 / 2 ^ 52) * 1000"
  have lo: "2 ^ 9 \<le> x" and hi: "x < 2 ^ Suc 9" by (simp_all add: x_def)
  have y: "x * 2 ^ (52 - 9) = 1000 * 2 ^ 43 - 1000 / 2 ^ 9" by (simp add: x_def)
  have r: "round_half_even (x * 2 ^ (52 - 9)) = 1000 * 2 ^ 43 - 2"
    unfolding y by (rule round_half_even_down) simp_all
  have "fl x = of_int (1000 * 2 ^ 43 - 2) / 2 ^ (52 - 9)"
    by (rule fl_eval [OF lo hi _ r]) simp
  then show ?thesis by (simp add: x_def)
qed

lemma fl_capped_sum: "fl (60000 + (1000 - 1 / 2 ^ 42)) = 61000"
proof -
  define x :: real where "x = 60000 + (1000 - 1 / 2 ^ 42)"
  have lo: "2 ^ 15 \<le> x" and hi: "x < 2 ^ Suc 15" by (simp_all add: x_def)
  have y: "x * 2 ^ (52 - 15) = 61000 * 2 ^ 37 - 1 / 2 ^ 5" by (simp add: x_def)
  have r: "round_half_even (x * 2 ^ (52 - 15)) = (61000 * 2 ^ 37 - 1) + 1"
    unfolding y by (rule round_half_even_up) simp_all
  have "fl x = of_int ((61000 * 2 ^ 37 - 1) + 1) / 2 ^ (52 - 15)"
    by (rule fl_eval [OF lo hi _ r]) simp
  then show ?thesis by (simp add: x_def)
qed

lemma fl_eval_half:
  assumes h: "1 / 2 \<le> x" "x < 1" and r: "round_half_even (x * 2 ^ 53) = m"
  shows "fl x = of_int m / 2 ^ 53"
proof -
  from h have pos: "0 < x" by simp
  from h have b: "binade x = - 1" by (simp add: binade_def doublings_half)
  have q: "pow2 (binade x - 52) = 1 / 2 ^ 53" by (simp add: b pow2_def)
  have "x / (1 / 2 ^ 53) = x * 2 ^ 53" by simp
  with pos r show ?thesis by (simp add: fl_def Let_def q)
qed

lemma top_draw_is_double: "fl (1 - 1 / 2 ^ 52) = 1 - 1 / 2 ^ 52"
proof -
  define x :: real where "x = 1 - 1 / 2 ^ 52"
  have h: "1 / 2 \<le> x" "x < 1" by (simp_all add: x_def)
  have y: "x * 2 ^ 53 = of_int (2 ^ 53 - 2)" by (simp add: x_def)
  have r: "round_half_even (x * 2 ^ 53) = 2 ^ 53 - 2"
    unfolding y by (rule round_half_even_down) simp_all
  have "fl x = of_int (2 ^ 53 - 2) / 2 ^ 53"
    by (rule fl_eval_half [OF h r])
  then show ?thesis by (simp add: x_def)
qed

lemma fl_int: "1 \<le> m \<Longrightarrow> m < 2 ^ 53 \<Longrightarrow> fl (of_int m) = of_int m"
proof -
  assume m: "1 \<le> m" "m < 2 ^ 53"
  then have x: "0 < (of_int m :: real)" by simp
  from m(2) have "(of_int m :: real) < of_int (2 ^ 53)" by (simp only: of_int_less_iff)
  then have "(of_int m :: real) < 2 ^ Suc 52" by simp
  then have "binade (of_int m) \<le> int 52" by (rule binade_le)
  then have e: "binade (of_int m) \<le> 52" by simp
  have "fl (of_int m) \<le> of_int m" by (rule fl_le_int [OF x _ e]) simp
  moreover have "of_int m \<le> fl (of_int m)" by (rule fl_ge_int [OF x _ e]) simp
  ultimately show ?thesis by simp
qed

lemma fl_numeral: "numeral w < (2::int) ^ 53 \<Longrightarrow> fl (numeral w) = numeral w"
  using fl_int [of "numeral w"] by simp

section \<open>The shape of the library load state machine is invariant\<close>

lemma pollingE:
  assumes "polling s"
  obtains sc x r d where
    "libraryStatus s = Loading" "\<not> isLibraryLoaded s" "isPollingRef s"
    "scriptRef s = Some sc" "head_scripts s = [sc]" "passes (onerror_render sc)"
    "lib_timers s = [x]" "pollTimerRef s = Some (tid x)" "callback x = LibTick r d" "passes r"
  using assms
  by (auto simp: polling_def split: option.splits list.splits lib_callback.splits)

lemma backoffE:
  assumes "backoff s"
  obtains x r where
    "libraryStatus s = Loading" "\<not> isLibraryLoaded s" "\<not> isPollingRef s"
    "scriptRef s = None" "head_scripts s = []" "pollTimerRef s = None"
    "lib_timers s = [x]" "callback x = LibRetry r" "passes r"
  using assms
  by (auto simp: backoff_def split: list.splits lib_callback.splits)

lemma clearPolling_cleared: "cleared s \<Longrightarrow> clearPolling s = s"
  by (simp add: cleared_def clearPolling_def)

lemma handleLibraryFailure_cleared:
  assumes c: "cleared s" and r: "passes r" and b: "isBrowser P" and l: "libraryStatus s = Loading"
  shows "lib_inv P (handleLibraryFailure P r now rnd err s)"
proof (cases "int (libraryAttemptRef s) + 1 < maxRetries P")
  case True
  with c r l have "backoff (handleLibraryFailure P r now rnd err s)"
    by (simp add: handleLibraryFailure_def clearPolling_cleared Let_def backoff_def cleared_def)
  with b show ?thesis by (simp add: lib_inv_def)
next
  case False
  with c have "quiet (handleLibraryFailure P r now rnd err s)"
    by (simp add: handleLibraryFailure_def clearPolling_cleared Let_def quiet_def cleared_def)
  then show ?thesis by (simp add: lib_inv_def)
qed

lemma tick_after_fire:
  assumes t: "lib_timers s = []" and sc: "scriptRef s = Some sc" "head_scripts s = [sc]"
      "passes (onerror_render sc)"
    and st: "libraryStatus s = Loading" "\<not> isLibraryLoaded s" "isPollingRef s"
    and r: "passes r" and b: "isBrowser P"
  shows "lib_inv P (tick P r d now rnd s)"
proof -
  have cl: "cleared (removeScriptTag (clearPolling s))"
    using t sc st by (simp add: cleared_def removeScriptTag_def clearPolling_def split: option.splits)
  have ls: "libraryStatus (removeScriptTag (clearPolling s)) = Loading"
    using st by (simp add: removeScriptTag_def clearPolling_def split: option.splits)
  show ?thesis
  proof (cases "pipeline_present s")
    case True
    with cl have "quiet (tick P r d now rnd s)"
      by (simp add: tick_def Let_def quiet_def cleared_def)
    then show ?thesis by (simp add: lib_inv_def)
  next
    case np: False
    show ?thesis
    proof (cases "now \<ge> d")
      case True
      with np show ?thesis
        by (simp add: tick_def handleLibraryFailure_cleared [OF cl r b ls])
    next
      case False
      with np t sc st r have "polling (tick P r d now rnd s)"
        by (simp add: tick_def polling_def)
      with b show ?thesis by (simp add: lib_inv_def)
    qed
  qed
qed

lemma tryLoadLibrary_start:
  assumes c: "cleared s" and r: "passes r" and b: "isBrowser P"
  shows "lib_inv P (tryLoadLibrary P r now rnd s)"
proof -
  let ?u = "(injectScriptTag r (s\<lparr>libraryStatus := Loading, libraryError := None\<rparr>))\<lparr>isPollingRef := True\<rparr>"
  have e: "tryLoadLibrary P r now rnd s = tick P r (now + loadTimeout P) now rnd ?u"
    using c r b by (simp add: tryLoadLibrary_def ensurePolling_def passes_def cleared_def injectScriptTag_def Let_def)
  show ?thesis
    unfolding e
    by (rule tick_after_fire [where sc = "\<lparr>sid = scripts_created s + 1, onerror_render = r\<rparr>"])
       (use c r b in \<open>simp_all add: cleared_def injectScriptTag_def Let_def\<close>)
qed

lemma tryLoadLibrary_blocked:
  assumes "\<not> passes r \<or> \<not> isBrowser P"
  shows "tryLoadLibrary P r now rnd s = s"
  using assms by (auto simp: tryLoadLibrary_def passes_def)

lemma quiet_cleared: "quiet s \<Longrightarrow> \<not> isLibraryLoaded s \<Longrightarrow> cleared s"
  by (simp add: quiet_def cleared_def)

lemma render_inv:
  assumes "lib_inv P s"
  shows "lib_inv P (lib_step P now rnd EvRender s)"
proof (cases "passes (current_render s) \<and> isBrowser P")
  case False
  then show ?thesis using assms by (simp add: lib_step_def tryLoadLibrary_blocked)
next
  case True
  then have n: "libraryStatus s \<noteq> Loading" "\<not> isLibraryLoaded s"
    by (simp_all add: passes_def current_render_def)
  with assms have "quiet s" by (auto simp: lib_inv_def polling_def backoff_def)
  with n have "cleared s" by (simp add: quiet_cleared)
  with True show ?thesis by (simp add: lib_step_def tryLoadLibrary_start)
qed

lemma script_error_inv:
  assumes "lib_inv P s"
  shows "lib_inv P (lib_step P now rnd EvScriptError s)"
proof (cases "scriptRef s")
  case None
  then show ?thesis using assms by (simp add: lib_step_def)
next
  case (Some sc)
  with assms have p: "polling s" and b: "isBrowser P"
    by (auto simp: lib_inv_def quiet_def backoff_def)
  from p obtain x r d where h:
    "libraryStatus s = Loading" "\<not> isLibraryLoaded s" "isPollingRef s"
    "head_scripts s = [sc]" "passes (onerror_render sc)"
    "lib_timers s = [x]" "pollTimerRef s = Some (tid x)"
    using Some by (auto elim: pollingE)
  have cl: "cleared (removeScriptTag (clearPolling s))"
    using h Some by (simp add: cleared_def removeScriptTag_def clearPolling_def)
  have ls: "libraryStatus (removeScriptTag (clearPolling s)) = Loading"
    using h Some by (simp add: removeScriptTag_def clearPolling_def)
  show ?thesis
    using Some by (simp add: lib_step_def handleLibraryFailure_cleared [OF cl h(5) b ls])
qed

lemma script_executed_inv:
  assumes "lib_inv P s"
  shows "lib_inv P (lib_step P now rnd EvScriptExecuted s)"
proof -
  have "quiet (s\<lparr>pipeline_present := True\<rparr>) = quiet s"
    "polling (s\<lparr>pipeline_present := True\<rparr>) = polling s"
    "backoff (s\<lparr>pipeline_present := True\<rparr>) = backoff s"
    by (simp_all add: quiet_def polling_def backoff_def split: option.splits list.splits)
  with assms show ?thesis by (simp add: lib_step_def lib_inv_def)
qed

lemma timer_inv:
  assumes "lib_inv P s"
  shows "lib_inv P (lib_step P now rnd (EvTimer t) s)"
proof (cases "find (\<lambda>x. tid x = t) (lib_timers s)")
  case None
  then show ?thesis using assms by (simp add: lib_step_def)
next
  case (Some x)
  show ?thesis
  proof (cases "timer_due now x")
    case False
    with Some show ?thesis using assms by (simp add: lib_step_def)
  next
    case True
    from Some have ne: "lib_timers s \<noteq> []" by auto
    with assms have b: "isBrowser P" and pb: "polling s \<or> backoff s"
      by (auto simp: lib_inv_def quiet_def)
    let ?s1 = "s\<lparr>lib_timers := filter (\<lambda>y. tid y \<noteq> t) (lib_timers s)\<rparr>"
    from pb show ?thesis
    proof
      assume "polling s"
      then obtain sc y r d where h:
        "libraryStatus s = Loading" "\<not> isLibraryLoaded s" "isPollingRef s"
        "scriptRef s = Some sc" "head_scripts s = [sc]" "passes (onerror_render sc)"
        "lib_timers s = [y]" "pollTimerRef s = Some (tid y)" "callback y = LibTick r d" "passes r"
        by (rule pollingE)
      from Some h(7) have xy: "y = x" "tid x = t" by (auto split: if_splits)
      have "lib_inv P (tick P r d now rnd ?s1)"
        by (rule tick_after_fire [where sc = sc]) (use h xy b in simp_all)
      with Some True h xy show ?thesis by (simp add: lib_step_def)
    next
      assume "backoff s"
      then obtain y r where h:
        "libraryStatus s = Loading" "\<not> isLibraryLoaded s" "\<not> isPollingRef s"
        "scriptRef s = None" "head_scripts s = []" "pollTimerRef s = None"
        "lib_timers s = [y]" "callback y = LibRetry r" "passes r"
        by (rule backoffE)
      from Some h(7) have xy: "y = x" "tid x = t" by (auto split: if_splits)
      have "cleared ?s1" using h xy by (simp add: cleared_def)
      then have "lib_inv P (tryLoadLibrary P r now rnd ?s1)"
        using h b by (simp add: tryLoadLibrary_start)
      with Some True h xy show ?thesis by (simp add: lib_step_def)
    qed
  qed
qed

lemma lib_step_inv: "lib_inv P s \<Longrightarrow> lib_inv P (lib_step P now rnd ev s)"
  by (cases ev) (simp_all add: render_inv timer_inv script_error_inv script_executed_inv)

lemma lib_run_inv: "lib_inv P s \<Longrightarrow> lib_inv P (lib_run P evs s)"
  by (induction evs arbitrary: s) (auto simp: lib_step_inv)

lemma initial_inv: "lib_inv P initial_lstate"
  by (simp add: lib_inv_def quiet_def initial_lstate_def)

section \<open>A failure below the retry budget re-triggers the load\<close>

lemma handleLibraryFailure_retry:
  assumes "cleared c" and "int (libraryAttemptRef c) + 1 < maxRetries P"
  shows "handleLibraryFailure P r now rnd err c =
           c\<lparr>libraryAttemptRef := libraryAttemptRef c + 1,
             lib_timers :=
               [\<lparr>tid = lib_next_tid c, set_at = now,
                 delay = fl (real (min (1000 * 2 ^ libraryAttemptRef c) 60000) + fl (rnd * 1000)),
                 callback = LibRetry r\<rparr>],
             lib_next_tid := lib_next_tid c + 1\<rparr>"
  using assms
  by (simp add: handleLibraryFailure_def clearPolling_cleared Let_def cleared_def)

lemma failure_reaches_handler:
  assumes inv: "lib_inv P s" and fail: "library_failure now ev s"
  obtains r err c where
    "lib_step P now rnd ev s = handleLibraryFailure P r now rnd err c"
    "cleared c" "passes r" "isBrowser P" "libraryStatus s = Loading"
    "c = (removeScriptTag (clearPolling s))\<lparr>lib_timers := []\<rparr>"
proof (cases ev)
  case EvRender
  with fail show ?thesis by (simp add: library_failure_def)
next
  case EvScriptExecuted
  with fail show ?thesis by (simp add: library_failure_def)
next
  case EvScriptError
  with fail obtain sc where sc: "scriptRef s = Some sc"
    by (auto simp: library_failure_def)
  with inv have p: "polling s" and b: "isBrowser P"
    by (auto simp: lib_inv_def quiet_def backoff_def)
  from p obtain x where h:
    "libraryStatus s = Loading" "\<not> isLibraryLoaded s" "isPollingRef s"
    "head_scripts s = [sc]" "passes (onerror_render sc)"
    "lib_timers s = [x]" "pollTimerRef s = Some (tid x)"
    using sc by (auto elim: pollingE)
  let ?c = "removeScriptTag (clearPolling s)"
  have cl: "cleared ?c"
    using h sc by (simp add: cleared_def removeScriptTag_def clearPolling_def)
  have t: "lib_timers ?c = []"
    using cl by (simp add: cleared_def)
  have e: "?c = ?c\<lparr>lib_timers := []\<rparr>"
    using t by simp
  show ?thesis
    by (rule that [of "onerror_render sc" "JsError ''Script load error''" ?c])
       (use EvScriptError sc cl h b e in \<open>simp_all add: lib_step_def\<close>)
next
  case (EvTimer t)
  with fail obtain x r d where x: "find (\<lambda>x. tid x = t) (lib_timers s) = Some x"
      "timer_due now x" "callback x = LibTick r d" "\<not> pipeline_present s" "d \<le> now"
    by (auto simp: library_failure_def split: option.splits lib_callback.splits)
  from x(1) have ne: "lib_timers s \<noteq> []" by auto
  with inv have b: "isBrowser P" and pb: "polling s \<or> backoff s"
    by (auto simp: lib_inv_def quiet_def)
  from pb x have "polling s"
    by (auto elim!: backoffE split: if_splits)
  then obtain sc y r' d' where h:
    "libraryStatus s = Loading" "\<not> isLibraryLoaded s" "isPollingRef s"
    "scriptRef s = Some sc" "head_scripts s = [sc]" "passes (onerror_render sc)"
    "lib_timers s = [y]" "pollTimerRef s = Some (tid y)" "callback y = LibTick r' d'" "passes r'"
    by (rule pollingE)
  from x(1) h(7) have xy: "y = x" "tid x = t" by (auto split: if_splits)
  let ?s1 = "s\<lparr>lib_timers := filter (\<lambda>y. tid y \<noteq> t) (lib_timers s)\<rparr>"
  let ?c = "removeScriptTag (clearPolling ?s1)"
  have cl: "cleared ?c"
    using h xy by (simp add: cleared_def removeScriptTag_def clearPolling_def)
  have e: "?c = (removeScriptTag (clearPolling s))\<lparr>lib_timers := []\<rparr>"
    using h xy by (simp add: removeScriptTag_def clearPolling_def)
  have st: "lib_step P now rnd ev s = handleLibraryFailure P r now rnd
     (JsError (''transformers.js not ready within '' @ show_int (loadTimeout P) @ '' ms'')) ?c"
    using EvTimer x h xy by (simp add: lib_step_def tick_def)
  show ?thesis
    by (rule that [OF st cl _ b h(1) e]) (use h x xy in simp)
qed

lemma retry_fires:
  assumes c: "cleared c" and r: "passes r" and b: "isBrowser P"
    and due: "timer_due now' x" and x: "tid x = n" "callback x = LibRetry r"
    and np: "\<not> pipeline_present c" and lt: "0 < loadTimeout P"
  shows "lib_step P now' rnd' (EvTimer n) (c\<lparr>lib_timers := [x], lib_next_tid := Suc n\<rparr>) =
           c\<lparr>lib_timers :=
               [\<lparr>tid = Suc n, set_at = now', delay = 500,
                 callback = LibTick r (now' + loadTimeout P)\<rparr>],
             lib_next_tid := Suc (Suc n),
             libraryStatus := Loading, libraryError := None,
             head_scripts := [\<lparr>sid = scripts_created c + 1, onerror_render = r\<rparr>],
             scriptRef := Some \<lparr>sid = scripts_created c + 1, onerror_render = r\<rparr>,
             scripts_created := scripts_created c + 1,
             isPollingRef := True, pollTimerRef := Some (Suc n)\<rparr>"
  using assms
  by (simp add: lib_step_def tryLoadLibrary_def ensurePolling_def injectScriptTag_def tick_def
        passes_def cleared_def Let_def)

text \<open>
  C1. In every state the mounted provider can reach, when a load attempt fails (the
  script element reports an error, or a due tick finds no pipeline at its deadline) and
  the attempt counter after the increment is still below \<^verbatim>\<open>maxRetries\<close>: the status is
  \<^verbatim>\<open>loading\<close> before and after the failure; the script element and the poll loop are
  gone and exactly one timeout is pending, \<^verbatim>\<open>tryLoadLibrary\<close> after the backoff delay; a
  render in between changes nothing; and when that timeout fires, with the pipeline still
  absent and a positive \<^verbatim>\<open>loadTimeout\<close>, a new script element is created and put into the
  document, the poll loop runs again with the deadline \<^verbatim>\<open>loadTimeout\<close> after the firing
  time, and the status is still \<^verbatim>\<open>loading\<close>.
\<close>

theorem failure_below_budget_retriggers_load:
  assumes reach: "s = lib_run P evs initial_lstate"
      and fail: "library_failure now ev s"
      and budget: "int (libraryAttemptRef s) + 1 < maxRetries P"
  shows "libraryStatus s = Loading
       \<and> libraryStatus (lib_step P now rnd ev s) = Loading
       \<and> scriptRef (lib_step P now rnd ev s) = None
       \<and> \<not> isPollingRef (lib_step P now rnd ev s)
       \<and> libraryAttemptRef (lib_step P now rnd ev s) = libraryAttemptRef s + 1
       \<and> (\<exists>x r. lib_timers (lib_step P now rnd ev s) = [x] \<and> callback x = LibRetry r
             \<and> set_at x = now
             \<and> delay x = fl (real (min (1000 * 2 ^ libraryAttemptRef s) 60000) + fl (rnd * 1000))
             \<and> (\<forall>t q. lib_step P t q EvRender (lib_step P now rnd ev s)
                         = lib_step P now rnd ev s)
             \<and> (\<forall>now' rnd'.
                   timer_due now' x \<and> \<not> pipeline_present (lib_step P now rnd ev s)
                   \<and> 0 < loadTimeout P \<longrightarrow>
                   (let s2 = lib_step P now' rnd' (EvTimer (tid x)) (lib_step P now rnd ev s) in
                    libraryStatus s2 = Loading
                    \<and> scripts_created s2 = scripts_created s + 1
                    \<and> scriptRef s2 = Some \<lparr>sid = scripts_created s + 1, onerror_render = r\<rparr>
                    \<and> head_scripts s2 = [\<lparr>sid = scripts_created s + 1, onerror_render = r\<rparr>]
                    \<and> isPollingRef s2
                    \<and> (\<exists>y. lib_timers s2 = [y] \<and> pollTimerRef s2 = Some (tid y)
                          \<and> set_at y = now' \<and> delay y = 500
                          \<and> callback y = LibTick r (now' + loadTimeout P)))))"
proof -
  have inv: "lib_inv P s"
    unfolding reach by (rule lib_run_inv [OF initial_inv])
  from inv fail obtain r err c where h:
    "lib_step P now rnd ev s = handleLibraryFailure P r now rnd err c"
    "cleared c" "passes r" "isBrowser P" "libraryStatus s = Loading"
    "c = (removeScriptTag (clearPolling s))\<lparr>lib_timers := []\<rparr>"
    by (rule failure_reaches_handler)
  have fr: "libraryAttemptRef c = libraryAttemptRef s" "libraryStatus c = libraryStatus s"
    "scripts_created c = scripts_created s"
    unfolding h(6) by (simp_all add: removeScriptTag_def clearPolling_def split: option.splits)
  let ?x = "\<lparr>tid = lib_next_tid c, set_at = now,
              delay = fl (real (min (1000 * 2 ^ libraryAttemptRef c) 60000) + fl (rnd * 1000)),
              callback = LibRetry r\<rparr>"
  let ?c' = "c\<lparr>libraryAttemptRef := libraryAttemptRef c + 1\<rparr>"
  have s': "lib_step P now rnd ev s =
              ?c'\<lparr>lib_timers := [?x], lib_next_tid := Suc (lib_next_tid c)\<rparr>"
    unfolding h(1) using h(2) budget fr
    by (simp add: handleLibraryFailure_retry)
  have c': "cleared ?c'" using h(2) by (simp add: cleared_def)
  have st: "libraryStatus (lib_step P now rnd ev s) = Loading"
    "scriptRef (lib_step P now rnd ev s) = None"
    "\<not> isPollingRef (lib_step P now rnd ev s)"
    "libraryAttemptRef (lib_step P now rnd ev s) = libraryAttemptRef s + 1"
    "lib_timers (lib_step P now rnd ev s) = [?x]"
    unfolding s' using h(2,5) fr by (simp_all add: cleared_def)
  have blocked: "lib_step P t q EvRender (lib_step P now rnd ev s) = lib_step P now rnd ev s"
    for t q
    using st(1) by (simp add: lib_step_def tryLoadLibrary_def current_render_def)
  have fire: "let s2 = lib_step P now' rnd' (EvTimer (tid ?x)) (lib_step P now rnd ev s) in
                libraryStatus s2 = Loading
                \<and> scripts_created s2 = scripts_created s + 1
                \<and> scriptRef s2 = Some \<lparr>sid = scripts_created s + 1, onerror_render = r\<rparr>
                \<and> head_scripts s2 = [\<lparr>sid = scripts_created s + 1, onerror_render = r\<rparr>]
                \<and> isPollingRef s2
                \<and> (\<exists>y. lib_timers s2 = [y] \<and> pollTimerRef s2 = Some (tid y)
                      \<and> set_at y = now' \<and> delay y = 500
                      \<and> callback y = LibTick r (now' + loadTimeout P))"
    if d: "timer_due now' ?x" and np: "\<not> pipeline_present (lib_step P now rnd ev s)"
      and lt: "0 < loadTimeout P" for now' rnd'
  proof -
    have np': "\<not> pipeline_present ?c'" using np unfolding s' by simp
    have "lib_step P now' rnd' (EvTimer (lib_next_tid c))
            (?c'\<lparr>lib_timers := [?x], lib_next_tid := Suc (lib_next_tid c)\<rparr>) =
          ?c'\<lparr>lib_timers :=
               [\<lparr>tid = Suc (lib_next_tid c), set_at = now', delay = 500,
                 callback = LibTick r (now' + loadTimeout P)\<rparr>],
             lib_next_tid := Suc (Suc (lib_next_tid c)),
             libraryStatus := Loading, libraryError := None,
             head_scripts := [\<lparr>sid = scripts_created ?c' + 1, onerror_render = r\<rparr>],
             scriptRef := Some \<lparr>sid = scripts_created ?c' + 1, onerror_render = r\<rparr>,
             scripts_created := scripts_created ?c' + 1,
             isPollingRef := True, pollTimerRef := Some (Suc (lib_next_tid c))\<rparr>"
      by (rule retry_fires [OF c' h(3,4) d _ _ np' lt]) simp_all
    then show ?thesis
      unfolding s' by (simp add: fr)
  qed
  show ?thesis
    using h(5) st blocked fire
    by (intro conjI exI [of _ ?x] exI [of _ r]) (simp_all add: fr)
qed

lemma mounted_lstate_eq:
  "mounted_lstate =
     \<lparr>isLibraryLoaded = False, libraryStatus = Loading, libraryError = None,
      scriptRef = Some \<lparr>sid = 1, onerror_render = \<lparr>cap_isLibraryLoaded = False, cap_libraryStatus = Idle\<rparr>\<rparr>,
      pollTimerRef = Some 1, isPollingRef = True, libraryAttemptRef = 0, readyPromise = None,
      head_scripts = [\<lparr>sid = 1, onerror_render = \<lparr>cap_isLibraryLoaded = False, cap_libraryStatus = Idle\<rparr>\<rparr>],
      scripts_created = 1,
      lib_timers = [\<lparr>tid = 1, set_at = 0, delay = 500,
                     callback = LibTick \<lparr>cap_isLibraryLoaded = False, cap_libraryStatus = Idle\<rparr> 60000\<rparr>],
      lib_next_tid = 2,
      onLibraryError_calls = [], pipeline_present = False\<rparr>"
  by (simp add: mounted_lstate_def default_props_def initial_lstate_def lib_step_def
        current_render_def tryLoadLibrary_def ensurePolling_def injectScriptTag_def tick_def Let_def)

theorem failure_below_budget_retriggers_load_witness:
  "library_failure 60000 (EvTimer 1) mounted_lstate
   \<and> library_failure 100 EvScriptError mounted_lstate
   \<and> int (libraryAttemptRef mounted_lstate) + 1 < maxRetries default_props
   \<and> libraryStatus (lib_step default_props 60000 (1/2) (EvTimer 1) mounted_lstate) = Loading
   \<and> map delay (lib_timers (lib_step default_props 60000 (1/2) (EvTimer 1) mounted_lstate)) = [1500]
   \<and> scriptRef (lib_step default_props 60000 (1/2) (EvTimer 1) mounted_lstate) = None
   \<and> libraryStatus (lib_step default_props 100 (1/2) EvScriptError mounted_lstate) = Loading"
proof -
  have f1: "library_failure 60000 (EvTimer 1) mounted_lstate"
    by (simp add: mounted_lstate_eq library_failure_def timer_due_def)
  have f2: "library_failure 100 EvScriptError mounted_lstate"
    by (simp add: mounted_lstate_eq library_failure_def)
  have b: "int (libraryAttemptRef mounted_lstate) + 1 < maxRetries default_props"
    by (simp add: mounted_lstate_eq default_props_def)
  have a: "libraryAttemptRef mounted_lstate = 0"
    by (simp add: mounted_lstate_eq)
  from failure_below_budget_retriggers_load [OF mounted_lstate_def f1 b, of "1/2"]
       failure_below_budget_retriggers_load [OF mounted_lstate_def f2 b, of "1/2"]
  show ?thesis
    using f1 f2 b by (auto simp: a fl_numeral)
qed

section \<open>The backoff delay\<close>

lemma backoff_base_table:
  "\<forall>n::nat. 1 \<le> n \<longrightarrow>
     min (1000 * 2 ^ n) 60000 = min (2 * min (1000 * 2 ^ (n - 1)) 60000) (60000::nat)
   \<and> min (1000 * 2 ^ (n - 1)) 60000 \<le> (60000::nat)
   \<and> (n \<le> 6 \<longrightarrow> min (1000 * 2 ^ (n - 1)) 60000 = (1000 * 2 ^ (n - 1) :: nat))
   \<and> (7 \<le> n \<longrightarrow> min (1000 * 2 ^ (n - 1)) 60000 = (60000::nat))"
proof (intro allI impI conjI)
  fix n :: nat assume n: "1 \<le> n"
  from n obtain m where m: "n = Suc m" by (cases n) auto
  show "min (1000 * 2 ^ n) 60000 = min (2 * min (1000 * 2 ^ (n - 1)) 60000) (60000::nat)"
    unfolding m by (simp add: min_def)
  show "min (1000 * 2 ^ (n - 1)) 60000 \<le> (60000::nat)"
    by (rule min.cobounded2)
  show "min (1000 * 2 ^ (n - 1)) 60000 = (1000 * 2 ^ (n - 1) :: nat)" if "n \<le> 6"
  proof -
    have "(2::nat) ^ (n - 1) \<le> 2 ^ 5" using that by (intro power_increasing) auto
    then have "(1000 * 2 ^ (n - 1) :: nat) \<le> 60000" by simp
    then show ?thesis by (rule min_absorb1)
  qed
  show "min (1000 * 2 ^ (n - 1)) 60000 = (60000::nat)" if "7 \<le> n"
  proof -
    have "(2::nat) ^ 6 \<le> 2 ^ (n - 1)" using that by (intro power_increasing) auto
    then have "(60000::nat) \<le> 1000 * 2 ^ (n - 1)" by simp
    then show ?thesis by (rule min_absorb2)
  qed
qed

text \<open>The rounded sum of the backoff base for attempt \<open>k\<close> and a jitter in \<open>[0, 1000)\<close>.\<close>

lemma backoff_sum_bounds:
  assumes j: "0 \<le> j" "j < 1000"
  shows "real (min (1000 * 2 ^ m) 60000) \<le> fl (real (min (1000 * 2 ^ m) 60000) + j)
       \<and> fl (real (min (1000 * 2 ^ m) 60000) + j) \<le> real (min (1000 * 2 ^ m) 60000) + 1000
       \<and> 1000 \<le> fl (real (min (1000 * 2 ^ m) 60000) + j)
       \<and> fl (real (min (1000 * 2 ^ m) 60000) + j) \<le> 61000
       \<and> (m \<le> 5 \<longrightarrow> fl (real (min (1000 * 2 ^ m) 60000) + j) \<le> 33000)"
proof -
  let ?b = "min (1000 * 2 ^ m) (60000::nat)"
  have b: "1 \<le> ?b" "?b \<le> 60000" "1000 \<le> ?b" by simp_all
  from fl_sum_bounds [OF b(1,2) j]
  have s: "real ?b \<le> fl (real ?b + j)" "fl (real ?b + j) \<le> real ?b + 1000" by simp_all
  from b(3) have lo: "(1000::real) \<le> real ?b" by linarith
  from b(2) have hi: "real ?b \<le> (60000::real)" by linarith
  have small: "real ?b \<le> 32000" if "m \<le> 5"
  proof -
    have "(2::nat) ^ m \<le> 2 ^ 5" using that by (intro power_increasing) auto
    then have "1000 * 2 ^ m \<le> (32000::nat)" by simp
    then have "?b \<le> 32000" by simp
    then show ?thesis by linarith
  qed
  from s lo hi small show ?thesis by (intro conjI impI) linarith+
qed

lemma jitter_bounds:
  assumes "fl rnd = rnd" and "0 \<le> rnd" and "rnd < 1"
  shows "0 \<le> fl (rnd * 1000) \<and> fl (rnd * 1000) < 1000"
proof -
  from assms have "rnd \<le> 1 - 1 / 2 ^ 53" by (rule double_below_one)
  with assms(2) have "fl (rnd * 1000) \<le> 1000 - 1 / 2 ^ 43" by (rule jitter_below_1000)
  moreover have "(0::real) < 1 / 2 ^ 43" by simp
  moreover have "0 \<le> fl (rnd * 1000)" using assms(2) by (intro fl_nonneg) simp
  ultimately show ?thesis by linarith
qed

text \<open>
  C8 as stated fails in its last part. With the attempt counter at 6, so that this is
  attempt 7 and the base is capped at 60000, and \<^verbatim>\<open>Math.random()\<close> returning
  \<open>1 - 2^-52\<close>, the largest double below 1 that has 52 fraction bits, the jitter is
  \<open>1000 - 2^-42\<close> and the sum \<open>61000 - 2^-42\<close> is not a double: it rounds to 61000, so
  the scheduled delay is 61000 and not below it.
\<close>

theorem backoff_delay_below_61000_counterexample:
  "fl (1 - 1 / 2 ^ 52) = 1 - 1 / 2 ^ 52
   \<and> fl ((1 - 1 / 2 ^ 52) * 1000) < 1000
   \<and> map delay (lib_timers (handleLibraryFailure (default_props\<lparr>maxRetries := 10\<rparr>)
        \<lparr>cap_isLibraryLoaded = False, cap_libraryStatus = Idle\<rparr> 100 (1 - 1 / 2 ^ 52)
        (JsError ''Script load error'') (initial_lstate\<lparr>libraryAttemptRef := 6\<rparr>)))
      = [61000]"
proof -
  have j: "fl ((1 - 1 / 2 ^ 52) * 1000) = 1000 - 1 / 2 ^ 42" by (rule fl_top_draw)
  have "(0::real) < 1 / 2 ^ 42" by simp
  with j have lt: "fl ((1 - 1 / 2 ^ 52) * 1000) < 1000" by linarith
  have d: "map delay (lib_timers (handleLibraryFailure (default_props\<lparr>maxRetries := 10\<rparr>)
        \<lparr>cap_isLibraryLoaded = False, cap_libraryStatus = Idle\<rparr> 100 (1 - 1 / 2 ^ 52)
        (JsError ''Script load error'') (initial_lstate\<lparr>libraryAttemptRef := 6\<rparr>)))
      = [fl (60000 + fl ((1 - 1 / 2 ^ 52) * 1000))]"
    by (simp add: handleLibraryFailure_def clearPolling_def initial_lstate_def
          default_props_def Let_def)
  show ?thesis
    unfolding d j using lt [unfolded j] by (simp only: top_draw_is_double fl_capped_sum)
qed

text \<open>
  C8, amended. In both load state machines, a failure whose attempt number \<open>k\<close> (the
  counter after the increment, so \<open>k \<ge> 1\<close>) is below \<^verbatim>\<open>maxRetries\<close> schedules the retry
  with the delay \<open>min (1000 * 2^(k-1)) 60000 + jitter\<close>, the sum rounded to a double, where
  the jitter \<^verbatim>\<open>Math.random() * 1000\<close> lies in \<open>[0, 1000)\<close> for every double
  \<^verbatim>\<open>Math.random()\<close> can return. The deterministic part doubles from one attempt to the
  next up to the cap: it is \<open>1000 * 2^(k-1)\<close> for \<open>k \<le> 6\<close> and 60000 from \<open>k = 7\<close> on.
  The delay is at least the deterministic part and at most 1000 more, hence at most
  61000, and strictly below 61000 for \<open>k \<le> 6\<close>.
\<close>

theorem backoff_delay_formula:
  assumes rnd: "fl rnd = rnd" "0 \<le> rnd" "rnd < 1"
      and k: "libraryAttemptRef s + 1 = k" "int k < maxRetries P"
      and k': "webLLMAttemptRef w + 1 = k'" "int k' < wMaxRetries"
  shows "(\<exists>x. lib_timers (handleLibraryFailure P r now rnd err s)
                = lib_timers (clearPolling s) @ [x]
             \<and> callback x = LibRetry r
             \<and> delay x = fl (real (min (1000 * 2 ^ (k - 1)) 60000) + fl (rnd * 1000))
             \<and> real (min (1000 * 2 ^ (k - 1)) 60000) \<le> delay x
             \<and> delay x \<le> real (min (1000 * 2 ^ (k - 1)) 60000) + 1000
             \<and> delay x \<le> 61000 \<and> (k \<le> 6 \<longrightarrow> delay x < 61000))
       \<and> (\<exists>x. wl_timers (handleWebLLMFailure wMaxRetries c now rnd err w)
                = wl_timers (clearWebLLMPolling w) @ [x]
             \<and> callback x = WlRetry c
             \<and> delay x = fl (real (min (1000 * 2 ^ (k' - 1)) 60000) + fl (rnd * 1000))
             \<and> real (min (1000 * 2 ^ (k' - 1)) 60000) \<le> delay x
             \<and> delay x \<le> real (min (1000 * 2 ^ (k' - 1)) 60000) + 1000
             \<and> delay x \<le> 61000 \<and> (k' \<le> 6 \<longrightarrow> delay x < 61000))
       \<and> 0 \<le> fl (rnd * 1000) \<and> fl (rnd * 1000) < 1000
       \<and> (\<forall>n::nat. 1 \<le> n \<longrightarrow>
             min (1000 * 2 ^ n) 60000 = min (2 * min (1000 * 2 ^ (n - 1)) 60000) (60000::nat)
           \<and> min (1000 * 2 ^ (n - 1)) 60000 \<le> (60000::nat)
           \<and> (n \<le> 6 \<longrightarrow> min (1000 * 2 ^ (n - 1)) 60000 = (1000 * 2 ^ (n - 1) :: nat))
           \<and> (7 \<le> n \<longrightarrow> min (1000 * 2 ^ (n - 1)) 60000 = (60000::nat)))"
proof -
  from rnd have j: "0 \<le> fl (rnd * 1000)" "fl (rnd * 1000) < 1000"
    using jitter_bounds by blast+
  note sb = backoff_sum_bounds [OF j]
  let ?d = "\<lambda>k. fl (real (min (1000 * 2 ^ (k - 1)) 60000) + fl (rnd * 1000))"
  have bounds: "real (min (1000 * 2 ^ (n - 1)) 60000) \<le> ?d n
        \<and> ?d n \<le> real (min (1000 * 2 ^ (n - 1)) 60000) + 1000
        \<and> ?d n \<le> 61000 \<and> (n \<le> 6 \<longrightarrow> ?d n < 61000)" for n :: nat
  proof -
    from sb [of "n - 1"] have 1: "real (min (1000 * 2 ^ (n - 1)) 60000) \<le> ?d n"
      and 2: "?d n \<le> real (min (1000 * 2 ^ (n - 1)) 60000) + 1000"
      and 3: "?d n \<le> 61000"
      and 4: "n - 1 \<le> 5 \<longrightarrow> ?d n \<le> 33000"
      by blast+
    have 5: "?d n < 61000" if "n \<le> 6"
    proof -
      from that have "n - 1 \<le> 5" by simp
      with 4 have "?d n \<le> 33000" by blast
      then show ?thesis by linarith
    qed
    from 1 2 3 5 show ?thesis by blast
  qed
  let ?x = "\<lparr>tid = lib_next_tid (clearPolling s), set_at = now, delay = ?d k,
             callback = LibRetry r\<rparr>"
  have al: "libraryAttemptRef (clearPolling s) = libraryAttemptRef s"
    by (simp add: clearPolling_def split: option.splits)
  have tl: "lib_timers (handleLibraryFailure P r now rnd err s) = lib_timers (clearPolling s) @ [?x]"
    using k by (simp add: handleLibraryFailure_def Let_def al)
  have lib: "\<exists>x. lib_timers (handleLibraryFailure P r now rnd err s)
                = lib_timers (clearPolling s) @ [x]
             \<and> callback x = LibRetry r
             \<and> delay x = fl (real (min (1000 * 2 ^ (k - 1)) 60000) + fl (rnd * 1000))
             \<and> real (min (1000 * 2 ^ (k - 1)) 60000) \<le> delay x
             \<and> delay x \<le> real (min (1000 * 2 ^ (k - 1)) 60000) + 1000
             \<and> delay x \<le> 61000 \<and> (k \<le> 6 \<longrightarrow> delay x < 61000)"
    by (rule exI [of _ ?x]) (use tl bounds [of k] in simp)
  let ?y = "\<lparr>tid = wl_next_tid (clearWebLLMPolling w), set_at = now, delay = ?d k',
             callback = WlRetry c\<rparr>"
  have aw: "webLLMAttemptRef (clearWebLLMPolling w) = webLLMAttemptRef w"
    by (simp add: clearWebLLMPolling_def split: option.splits)
  have tw: "wl_timers (handleWebLLMFailure wMaxRetries c now rnd err w)
              = wl_timers (clearWebLLMPolling w) @ [?y]"
    using k' by (simp add: handleWebLLMFailure_def Let_def aw)
  have wl: "\<exists>x. wl_timers (handleWebLLMFailure wMaxRetries c now rnd err w)
                = wl_timers (clearWebLLMPolling w) @ [x]
             \<and> callback x = WlRetry c
             \<and> delay x = fl (real (min (1000 * 2 ^ (k' - 1)) 60000) + fl (rnd * 1000))
             \<and> real (min (1000 * 2 ^ (k' - 1)) 60000) \<le> delay x
             \<and> delay x \<le> real (min (1000 * 2 ^ (k' - 1)) 60000) + 1000
             \<and> delay x \<le> 61000 \<and> (k' \<le> 6 \<longrightarrow> delay x < 61000)"
    by (rule exI [of _ ?y]) (use tw bounds [of k'] in simp)
  from lib wl j backoff_base_table show ?thesis
    by (intro conjI)
qed

theorem backoff_delay_formula_witness:
  "fl (1 / 2) = 1 / 2 \<and> (0::real) \<le> 1 / 2 \<and> (1 / 2 :: real) < 1
   \<and> (\<exists>x. lib_timers (handleLibraryFailure (default_props\<lparr>maxRetries := 10\<rparr>)
               \<lparr>cap_isLibraryLoaded = False, cap_libraryStatus = Idle\<rparr> 100 (1 / 2)
               (JsError ''e'') (initial_lstate\<lparr>libraryAttemptRef := 6\<rparr>)) = [x]
          \<and> delay x = 60500 \<and> delay x \<le> 61000)
   \<and> (\<exists>x. wl_timers (handleWebLLMFailure 3 Idle 100 (1 / 2) (JsError ''e'') initial_wstate) = [x]
          \<and> delay x = 1500 \<and> delay x < 61000)"
proof -
  have c: "lib_timers (clearPolling (initial_lstate\<lparr>libraryAttemptRef := 6\<rparr>)) = []"
    "wl_timers (clearWebLLMPolling initial_wstate) = []"
    by (simp_all add: clearPolling_def initial_lstate_def clearWebLLMPolling_def
          initial_wstate_def)
  have a: "libraryAttemptRef (initial_lstate\<lparr>libraryAttemptRef := 6\<rparr>) + 1 = 7"
    "int 7 < maxRetries (default_props\<lparr>maxRetries := 10\<rparr>)"
    "webLLMAttemptRef initial_wstate + 1 = 1" "int 1 < 3"
    by (simp_all add: initial_wstate_def)
  have h: "round_half_even ((1 / 2) * 2 ^ 53) = 2 ^ 52"
    by (simp add: round_half_even_def Let_def)
  have d: "fl (1 / 2) = 1 / 2"
    using fl_eval_half [of "1 / 2", OF _ _ h] by simp
  have r: "(0::real) \<le> 1 / 2" "(1 / 2 :: real) < 1" by simp_all
  have e: "fl (real (min (1000 * 2 ^ (7 - 1)) 60000) + fl (1 / 2 * 1000)) = 60500"
    "fl (real (min (1000 * 2 ^ (1 - 1)) 60000) + fl (1 / 2 * 1000)) = 1500"
    by (simp_all add: fl_numeral)
  note t = backoff_delay_formula
         [where r = "\<lparr>cap_isLibraryLoaded = False, cap_libraryStatus = Idle\<rparr>"
            and now = 100 and err = "JsError ''e''" and c = Idle, OF d r a]
  from t obtain x where x:
    "lib_timers (handleLibraryFailure (default_props\<lparr>maxRetries := 10\<rparr>)
               \<lparr>cap_isLibraryLoaded = False, cap_libraryStatus = Idle\<rparr> 100 (1 / 2)
               (JsError ''e'') (initial_lstate\<lparr>libraryAttemptRef := 6\<rparr>))
       = lib_timers (clearPolling (initial_lstate\<lparr>libraryAttemptRef := 6\<rparr>)) @ [x]"
    "delay x = fl (real (min (1000 * 2 ^ (7 - 1)) 60000) + fl (1 / 2 * 1000))"
    "delay x \<le> 61000"
    by blast
  from t obtain y where y:
    "wl_timers (handleWebLLMFailure 3 Idle 100 (1 / 2) (JsError ''e'') initial_wstate)
       = wl_timers (clearWebLLMPolling initial_wstate) @ [y]"
    "delay y = fl (real (min (1000 * 2 ^ (1 - 1)) 60000) + fl (1 / 2 * 1000))"
    by blast
  have 1: "\<exists>x. lib_timers (handleLibraryFailure (default_props\<lparr>maxRetries := 10\<rparr>)
               \<lparr>cap_isLibraryLoaded = False, cap_libraryStatus = Idle\<rparr> 100 (1 / 2)
               (JsError ''e'') (initial_lstate\<lparr>libraryAttemptRef := 6\<rparr>)) = [x]
          \<and> delay x = 60500 \<and> delay x \<le> 61000"
    by (rule exI [of _ x]) (use x in \<open>simp only: c e\<close>, simp)
  have 2: "\<exists>x. wl_timers (handleWebLLMFailure 3 Idle 100 (1 / 2) (JsError ''e'') initial_wstate) = [x]
          \<and> delay x = 1500 \<and> delay x < 61000"
    by (rule exI [of _ y]) (use y in \<open>simp only: c e\<close>, simp)
  from d r 1 2 show ?thesis by (intro conjI)
qed

section \<open>The model cache: exhausted retries\<close>

lemma attempt_run_all_fail:
  assumes "errs \<noteq> []" and "int (length errs) = (if remain > 0 then remain + 1 else 1)"
  shows "\<exists>s'. attempt_run cb m t remain (map Rejected errs) s = (LmReturned (Rejected (last errs)), s')
              \<and> all_failed cb m t errs s s'"
  using assms
proof (induction errs arbitrary: remain s)
  case Nil
  then show ?case by simp
next
  case (Cons e es)
  show ?case
  proof (cases es)
    case Nil
    with Cons.prems have "\<not> remain > 0" by (auto split: if_splits)
    with Nil show ?thesis
      by (simp add: attempt_ready_def attempt_settled_def attempt_catch_def Let_def
            all_failed_def)
  next
    case (Cons e' es')
    with Cons.prems have r: "remain > 0" "int (length es) = remain"
      by (auto split: if_splits)
    let ?s1 = "s\<lparr>pipeline_calls := pipeline_calls s @ [(t, m)],
                  pendingRef := (pendingRef s)(m \<mapsto> length (pipeline_calls s))\<rparr>"
    have step: "attempt_run cb m t remain (map Rejected (e # es)) s =
                  attempt_run cb m t (remain - 1) (map Rejected es) ?s1"
      using r by (simp add: attempt_ready_def attempt_settled_def attempt_catch_def Let_def)
    have len: "int (length es) = (if remain - 1 > 0 then remain - 1 + 1 else 1)"
      using r Cons by auto
    have ne: "es \<noteq> []" using Cons by simp
    from Cons.IH [OF ne len, of ?s1] obtain s' where
      s': "attempt_run cb m t (remain - 1) (map Rejected es) ?s1
             = (LmReturned (Rejected (last es)), s')"
      "all_failed cb m t es ?s1 s'"
      by blast
    have "all_failed cb m t (e # es) s s'"
      using s'(2) ne by (simp add: all_failed_def replicate_app_Cons_same)
    with s'(1) step ne show ?thesis by simp
  qed
qed

text \<open>
  C5. A call \<^verbatim>\<open>loadModel(id, task, retry)\<close> that starts a load (no cached handle, no
  pending entry), with the library ready, whose factory promises all reject, one per
  attempt until the budget is used up (\<open>retry + 1\<close> attempts, one if \<open>retry \<le> 0\<close>):
  the returned promise rejects with the last error; the last error is recorded in
  \<^verbatim>\<open>modelErrors\<close>; the status is \<^verbatim>\<open>error\<close>; the pending entry is removed;
  \<^verbatim>\<open>onModelError\<close>, if supplied, is called once with the id and that error; \<^verbatim>\<open>models\<close> is
  unchanged, so an id absent before stays absent, and a later \<^verbatim>\<open>loadModel(id)\<close> starts a
  load again.
\<close>

theorem exhausted_retries_reject_and_record:
  assumes fresh: "cap_models modelId = None" "pendingRef s modelId = None"
      and errs: "errs \<noteq> []" "int (length errs) = (if retry > 0 then retry + 1 else 1)"
      and run: "loadModel_run cb cap_models modelId task retry (map Rejected errs) s = (c, s')"
  shows "c = LmReturned (Rejected (last errs))
       \<and> modelErrors s' modelId = Some (Some (last errs))
       \<and> modelStatus s' modelId = Some Error
       \<and> pendingRef s' modelId = None
       \<and> onModelError_calls s' =
           onModelError_calls s @ (if cb then [(modelId, last errs)] else [])
       \<and> models s' = models s
       \<and> pipeline_calls s' = pipeline_calls s @ replicate (length errs) (task, modelId)
       \<and> (models s modelId = None \<longrightarrow>
            (\<forall>task2 retry2.
               loadModel (models s') modelId task2 retry2 s' =
                 (LmAwaitReady modelId task2 retry2,
                  s'\<lparr>modelStatus := (modelStatus s')(modelId \<mapsto> Loading),
                     modelErrors := (modelErrors s')(modelId \<mapsto> None)\<rparr>)))"
proof -
  let ?s0 = "s\<lparr>modelStatus := (modelStatus s)(modelId \<mapsto> Loading),
               modelErrors := (modelErrors s)(modelId \<mapsto> None)\<rparr>"
  have start: "loadModel cap_models modelId task retry s = (LmAwaitReady modelId task retry, ?s0)"
    using fresh by (simp add: loadModel_def)
  from attempt_run_all_fail [OF errs, of cb modelId task ?s0] obtain u where
    u: "attempt_run cb modelId task retry (map Rejected errs) ?s0
          = (LmReturned (Rejected (last errs)), u)"
       "all_failed cb modelId task errs ?s0 u"
    by blast
  from run start u(1) have cs: "c = LmReturned (Rejected (last errs))" "s' = u"
    by (simp_all add: loadModel_run_def)
  from u(2) have f: "models s' = models s"
      "modelErrors s' modelId = Some (Some (last errs))"
      "modelStatus s' modelId = Some Error"
      "pendingRef s' modelId = None"
      "pipeline_calls s' = pipeline_calls s @ replicate (length errs) (task, modelId)"
      "onModelError_calls s' = onModelError_calls s @ (if cb then [(modelId, last errs)] else [])"
    unfolding cs(2) by (simp_all add: all_failed_def)
  have again: "loadModel (models s') modelId task2 retry2 s' =
                 (LmAwaitReady modelId task2 retry2,
                  s'\<lparr>modelStatus := (modelStatus s')(modelId \<mapsto> Loading),
                     modelErrors := (modelErrors s')(modelId \<mapsto> None)\<rparr>)"
    if "models s modelId = None" for task2 retry2
    using that f by (simp add: loadModel_def)
  from cs(1) f again show ?thesis by simp
qed

theorem exhausted_retries_reject_and_record_witness:
  "loadModel_run True Map.empty ''m'' ''t'' 1
     [Rejected (JsError ''first''), Rejected (JsError ''second'')] initial_mstate
   = (LmReturned (Rejected (JsError ''second'')),
      initial_mstate\<lparr>modelStatus := [''m'' \<mapsto> Error],
        modelErrors := [''m'' \<mapsto> Some (JsError ''second'')],
        pipeline_calls := [(''t'', ''m''), (''t'', ''m'')],
        onModelError_calls := [(''m'', JsError ''second'')]\<rparr>)"
proof -
  obtain c s' where run: "loadModel_run True Map.empty ''m'' ''t'' 1
     (map Rejected [JsError ''first'', JsError ''second'']) initial_mstate = (c, s')"
    by (cases "loadModel_run True Map.empty ''m'' ''t'' 1
     (map Rejected [JsError ''first'', JsError ''second'']) initial_mstate")
  have p: "pendingRef initial_mstate ''m'' = None" by (simp add: initial_mstate_def)
  have l: "int (length [JsError ''first'', JsError ''second'']) = (if (1::int) > 0 then 1 + 1 else 1)"
    by simp
  note t = exhausted_retries_reject_and_record [OF _ p _ l run]
  have e: "s' = initial_mstate\<lparr>modelStatus := [''m'' \<mapsto> Error],
        modelErrors := [''m'' \<mapsto> Some (JsError ''second'')],
        pipeline_calls := [(''t'', ''m''), (''t'', ''m'')],
        onModelError_calls := [(''m'', JsError ''second'')]\<rparr>"
    using run
    by (simp add: loadModel_run_def loadModel_def attempt_ready_def attempt_settled_def
          attempt_catch_def Let_def initial_mstate_def)
  from t e run show ?thesis by simp
qed

section \<open>The model cache: concurrent calls for one identifier\<close>

text \<open>What the pending table does achieve: a call that arrives once a factory promise is
  registered returns that promise and starts nothing.\<close>

lemma loadModel_returns_pending:
  "cap_models modelId = None \<Longrightarrow> pendingRef s modelId = Some p \<Longrightarrow>
   loadModel cap_models modelId task retry s = (LmReturnedPending p, s)"
  by (simp add: loadModel_def)

lemmas lm_defs = lm_step_def loadModel_def attempt_ready_def attempt_settled_def
  attempt_catch_def unloadModel_def Let_def initial_msystem_def initial_mstate_def

text \<open>
  C2 fails on the code. \<^verbatim>\<open>attempt\<close> registers the factory promise in \<^verbatim>\<open>pendingRef\<close> only
  after \<^verbatim>\<open>await readyPromiseRef.current\<close>, and an \<^verbatim>\<open>await\<close> always yields, so two calls
  made in the same turn both find no pending entry. Two calls \<^verbatim>\<open>loadModel("m", "t")\<close>
  followed by their two resumptions call the factory twice, leave two factory calls for
  "m" in flight, and resolve the two callers to two different handles.
\<close>

theorem concurrent_loadModel_calls_factory_twice:
  "pipeline_calls (mst (lm_run True
      [EvLoadModel Map.empty ''m'' ''t'' 1, EvLoadModel Map.empty ''m'' ''t'' 1,
       EvReadySettled 0 (Fulfilled ()), EvReadySettled 1 (Fulfilled ())]
      initial_msystem)) = [(''t'', ''m''), (''t'', ''m'')]
   \<and> in_flight (lm_run True
      [EvLoadModel Map.empty ''m'' ''t'' 1, EvLoadModel Map.empty ''m'' ''t'' 1,
       EvReadySettled 0 (Fulfilled ()), EvReadySettled 1 (Fulfilled ())]
      initial_msystem) ''m'' = [0, 1]
   \<and> map (call_result (lm_run True
      [EvLoadModel Map.empty ''m'' ''t'' 1, EvLoadModel Map.empty ''m'' ''t'' 1,
       EvReadySettled 0 (Fulfilled ()), EvReadySettled 1 (Fulfilled ()),
       EvPipelineSettled 0 (Fulfilled pipeA), EvPipelineSettled 1 (Fulfilled pipeB)]
      initial_msystem)) [0, 1] = [Some (Fulfilled pipeA), Some (Fulfilled pipeB)]"
  by (simp add: lm_defs in_flight_def call_result_def upt_rec [of 0] upt_rec [of 1] upt_rec [of 2])

section \<open>The model cache: unloading while a load is in flight\<close>

text \<open>
  C3 as stated fails: a load of "m" is in flight, \<^verbatim>\<open>unloadModel("m")\<close> is called, then the
  factory promise resolves; \<^verbatim>\<open>models\<close> then has an entry for "m".
\<close>

theorem unload_in_flight_discards_counterexample:
  "models (mst (lm_run True
      [EvLoadModel Map.empty ''m'' ''t'' 1, EvReadySettled 0 (Fulfilled ()),
       EvUnloadModel ''m'', EvPipelineSettled 0 (Fulfilled pipeA)]
      initial_msystem)) ''m'' \<noteq> None"
  by (simp add: lm_defs)

text \<open>
  C3, amended. \<^verbatim>\<open>unloadModel(id)\<close> removes the pending entry and the \<^verbatim>\<open>models\<close> entry of
  \<open>id\<close> and does not cancel the factory call. When the call in flight later resolves,
  its continuation stores the handle in \<^verbatim>\<open>models\<close> under \<open>id\<close> and sets the status to
  \<^verbatim>\<open>ready\<close>: the handle is kept, not discarded. No \<^verbatim>\<open>dispose\<close> is called by that
  continuation, and none by the unload when \<open>id\<close> had no entry in \<^verbatim>\<open>models\<close>.
\<close>

theorem late_handle_is_stored_not_disposed:
  "pendingRef (unloadModel modelId s) modelId = None
   \<and> models (unloadModel modelId s) modelId = None
   \<and> fst (attempt_settled cb modelId task remain (Fulfilled pipe) (unloadModel modelId s))
       = LmReturned (Fulfilled pipe)
   \<and> models (snd (attempt_settled cb modelId task remain (Fulfilled pipe)
                    (unloadModel modelId s))) modelId = Some pipe
   \<and> modelStatus (snd (attempt_settled cb modelId task remain (Fulfilled pipe)
                         (unloadModel modelId s))) modelId = Some Ready
   \<and> dispose_calls (snd (attempt_settled cb modelId task remain (Fulfilled pipe)
                           (unloadModel modelId s))) = dispose_calls (unloadModel modelId s)
   \<and> (models s modelId = None \<longrightarrow>
        dispose_calls (snd (attempt_settled cb modelId task remain (Fulfilled pipe)
                           (unloadModel modelId s))) = dispose_calls s)"
  by (simp add: attempt_settled_def unloadModel_def)

theorem late_handle_is_stored_not_disposed_witness:
  "lm_calls loading_msystem = [LmAwaitPipeline ''m'' ''t'' 1 0]
   \<and> pendingRef (mst loading_msystem) ''m'' = Some 0
   \<and> models (mst loading_msystem) ''m'' = None
   \<and> models (mst (lm_step True (EvPipelineSettled 0 (Fulfilled pipeA))
         (lm_step True (EvUnloadModel ''m'') loading_msystem))) ''m'' = Some pipeA
   \<and> modelStatus (mst (lm_step True (EvPipelineSettled 0 (Fulfilled pipeA))
         (lm_step True (EvUnloadModel ''m'') loading_msystem))) ''m'' = Some Ready
   \<and> dispose_calls (mst (lm_step True (EvPipelineSettled 0 (Fulfilled pipeA))
         (lm_step True (EvUnloadModel ''m'') loading_msystem))) = []"
proof -
  have a: "lm_calls loading_msystem = [LmAwaitPipeline ''m'' ''t'' 1 0]"
    "pendingRef (mst loading_msystem) ''m'' = Some 0"
    "models (mst loading_msystem) ''m'' = None" "dispose_calls (mst loading_msystem) = []"
    "settled loading_msystem 0 = None" "pipeline_calls (mst loading_msystem) = [(''t'', ''m'')]"
    by (simp_all add: loading_msystem_def lm_defs)
  have m: "mst (lm_step True (EvPipelineSettled 0 (Fulfilled pipeA))
         (lm_step True (EvUnloadModel ''m'') loading_msystem))
      = snd (attempt_settled True ''m'' ''t'' 1 (Fulfilled pipeA)
               (unloadModel ''m'' (mst loading_msystem)))"
    using a by (simp add: lm_step_def unloadModel_def split: prod.splits)
  note t = late_handle_is_stored_not_disposed
             [of "''m''" "mst loading_msystem" True "''t''" 1 pipeA]
  from t have t4: "models (snd (attempt_settled True ''m'' ''t'' 1 (Fulfilled pipeA)
               (unloadModel ''m'' (mst loading_msystem)))) ''m'' = Some pipeA"
    by blast
  from t have t5: "modelStatus (snd (attempt_settled True ''m'' ''t'' 1 (Fulfilled pipeA)
               (unloadModel ''m'' (mst loading_msystem)))) ''m'' = Some Ready"
    by blast
  from t a(3) have t7: "dispose_calls (snd (attempt_settled True ''m'' ''t'' 1 (Fulfilled pipeA)
               (unloadModel ''m'' (mst loading_msystem)))) = dispose_calls (mst loading_msystem)"
    by blast
  show ?thesis
    unfolding m using a t4 t5 t7 by simp
qed


end
